theory Spec2Isabelle
  imports Main
begin

text \<open>
  The data ingestion and validation engine of the exoplanet scout, class
  \<open>ExoplanetDataManager\<close>: the form validator \<open>validateFormData\<close>, the encoder
  \<open>exportToCSV\<close>, the decoder \<open>importFromCSV\<close> and its row tokenizer \<open>parseCSVLine\<close>, as
  functions of higher-order logic, with the properties of the specification that hold
  of them and the inputs at which the others fail.
\<close>

section \<open>Strings of the platform\<close>

text \<open>
  A JavaScript string is modelled as a \<open>string\<close> (a list of characters); the characters
  are those of the first 256 code units. \<open>dq\<close> is the double quote, \<open>lf\<close> the line feed.
\<close>

abbreviation dq :: char where
  "dq \<equiv> CHR 0x22"

abbreviation lf :: char where
  "lf \<equiv> CHR 0x0A"

text \<open>
  White space and line terminators as \<open>String.prototype.trim\<close> and \<open>parseFloat\<close> strip
  them: TAB, LF, VT, FF, CR, SPACE and NBSP (the members below code unit 256).
\<close>

definition isWhiteSpace :: "char \<Rightarrow> bool" where
  "isWhiteSpace c = (c \<in> set [CHR 0x09, CHR 0x0A, CHR 0x0B, CHR 0x0C, CHR 0x0D, CHR 0x20, CHR 0xA0])"

definition trim :: "string \<Rightarrow> string" where
  "trim s = rev (dropWhile isWhiteSpace (rev (dropWhile isWhiteSpace s)))"

text \<open>\<open>s.split('\n')\<close>: the pieces between line feeds; the empty string gives one empty piece.\<close>

fun splitLoop :: "string \<Rightarrow> string \<Rightarrow> string list" where
  "splitLoop [] piece = [piece]"
| "splitLoop (c # cs) piece =
     (if c = lf then piece # splitLoop cs [] else splitLoop cs (piece @ [c]))"

definition split_nl :: "string \<Rightarrow> string list" where
  "split_nl s = splitLoop s []"

text \<open>\<open>xs.join(sep)\<close>.\<close>

fun join :: "string \<Rightarrow> string list \<Rightarrow> string" where
  "join sep [] = []"
| "join sep [x] = x"
| "join sep (x # y # ys) = x @ sep @ join sep (y # ys)"

section \<open>The row tokenizer\<close>

text \<open>
  \<open>parseCSVLine\<close>: the loop over the characters of the line, with the fields finished so far
  (\<open>result\<close>), the field being read (\<open>current\<close>) and the flag \<open>inQuotes\<close>. A quote that is
  followed by a second quote while \<open>inQuotes\<close> appends one quote and skips both.
\<close>

function parseCSVLoop :: "string \<Rightarrow> string list \<Rightarrow> string \<Rightarrow> bool \<Rightarrow> string list" where
  "parseCSVLoop [] result current inQuotes = result @ [current]"
| "parseCSVLoop (c # cs) result current inQuotes =
     (if c = dq then
        (if inQuotes \<and> cs \<noteq> [] \<and> hd cs = dq
         then parseCSVLoop (tl cs) result (current @ [dq]) inQuotes
         else parseCSVLoop cs result current (\<not> inQuotes))
      else if c = CHR '','' \<and> \<not> inQuotes
      then parseCSVLoop cs (result @ [current]) [] inQuotes
      else parseCSVLoop cs result (current @ [c]) inQuotes)"
  by pat_completeness auto
termination
  by (relation "measure (\<lambda>(line, result, current, inQuotes). length line)") auto

definition parseCSVLine :: "string \<Rightarrow> string list" where
  "parseCSVLine line = parseCSVLoop line [] [] False"

section \<open>Encoding of cells and rows\<close>

text \<open>\<open>cell.replace(/"/g, '""')\<close> and the quoting of a cell; a row is its quoted cells joined by commas.\<close>

definition escapeQuotes :: "string \<Rightarrow> string" where
  "escapeQuotes cell = concat (map (\<lambda>c. if c = dq then [dq, dq] else [c]) cell)"

definition quoteCell :: "string \<Rightarrow> string" where
  "quoteCell cell = [dq] @ escapeQuotes cell @ [dq]"

definition encodeRow :: "string list \<Rightarrow> string" where
  "encodeRow row = join '','' (map quoteCell row)"


section \<open>Numbers of the platform\<close>

text \<open>
  A JavaScript Number is \<open>NaN\<close>, an infinity, or a finite value; \<open>Fin m e\<close> stands for the
  exact decimal value \<open>m * 10 ^ e\<close>. The rounding of the platform to binary64 is not
  modelled, and neither is the sign of zero: a decimal text too large for binary64 is
  not taken to infinity, one too small is not taken to zero, and one with more than 53
  significant bits keeps them all. Values produced by \<open>parseFloat\<close> are in canonical
  form: \<open>m\<close> has no trailing decimal zero, and zero is \<open>Fin 0 0\<close>.
\<close>

datatype jsnum = NaN | PosInf | NegInf | Fin int int

definition isNaN :: "jsnum \<Rightarrow> bool" where
  "isNaN v = (v = NaN)"

text \<open>The comparison \<open>a < b\<close> of two Numbers: false as soon as one of them is \<open>NaN\<close>.\<close>

fun num_less :: "jsnum \<Rightarrow> jsnum \<Rightarrow> bool" where
  "num_less NaN b = False"
| "num_less a NaN = False"
| "num_less PosInf b = False"
| "num_less a NegInf = False"
| "num_less NegInf b = True"
| "num_less a PosInf = True"
| "num_less (Fin m1 e1) (Fin m2 e2) =
     (m1 * 10 ^ nat (e1 - min e1 e2) < m2 * 10 ^ nat (e2 - min e1 e2))"

definition isDigit :: "char \<Rightarrow> bool" where
  "isDigit c = (c \<in> set ''0123456789'')"

definition digitVal :: "char \<Rightarrow> int" where
  "digitVal c = of_char c - 48"

definition digitsToInt :: "string \<Rightarrow> int" where
  "digitsToInt ds = foldl (\<lambda>n c. 10 * n + digitVal c) 0 ds"

text \<open>The decimal digits of an integer that is not negative, the leading digit first.\<close>

definition digitChar :: "int \<Rightarrow> char" where
  "digitChar d = char_of (48 + d)"

function intDigits :: "int \<Rightarrow> string" where
  "intDigits n =
     (if 10 \<le> n then intDigits (n div 10) @ [digitChar (n mod 10)] else [digitChar n])"
  by pat_completeness auto
termination
  by (relation "measure nat") auto

declare intDigits.simps [simp del]

definition stripZeros :: "string \<Rightarrow> string" where
  "stripZeros ds = rev (dropWhile (\<lambda>c. c = CHR ''0'') (rev ds))"

text \<open>
  \<open>parseFloat\<close>, after ECMAScript: leading white space is skipped, then the longest prefix
  that is a decimal literal is read (a sign, then \<open>Infinity\<close> or digits with an optional
  fraction and an optional exponent); when there is none the result is \<open>NaN\<close>. Whatever
  follows the literal is ignored. \<open>parseDecimal\<close> reads the digits, the fraction and the
  exponent once the sign is known.
\<close>

definition splitSign :: "string \<Rightarrow> bool \<times> string" where
  "splitSign s =
     (case s of
        [] \<Rightarrow> (False, [])
      | c # r \<Rightarrow>
          if c = CHR ''-'' then (True, r)
          else if c = CHR ''+'' then (False, r)
          else (False, s))"

definition exponentPart :: "string \<Rightarrow> int" where
  "exponentPart s =
     (case s of
        [] \<Rightarrow> 0
      | c # r \<Rightarrow>
          if c = CHR ''e'' \<or> c = CHR ''E'' then
            (let (neg, r') = splitSign r; ds = takeWhile isDigit r'
             in if ds = [] then 0
                else if neg then - digitsToInt ds else digitsToInt ds)
          else 0)"

definition mkNumber :: "bool \<Rightarrow> string \<Rightarrow> int \<Rightarrow> jsnum" where
  "mkNumber neg ds e =
     (let sig = stripZeros ds; m = digitsToInt sig
      in if m = 0 then Fin 0 0
         else Fin (if neg then - m else m) (e + int (length ds - length sig)))"

definition parseDecimal :: "bool \<Rightarrow> string \<Rightarrow> jsnum" where
  "parseDecimal neg s =
     (let ip = takeWhile isDigit s;
          r1 = dropWhile isDigit s;
          (fp, r2) =
            (case r1 of
               [] \<Rightarrow> ([], r1)
             | c # r \<Rightarrow>
                 if c = CHR ''.'' then (takeWhile isDigit r, dropWhile isDigit r)
                 else ([], r1))
      in if ip = [] \<and> fp = [] then NaN
         else mkNumber neg (ip @ fp) (exponentPart r2 - int (length fp)))"

definition parseFloat :: "string \<Rightarrow> jsnum" where
  "parseFloat str =
     (let (neg, s) = splitSign (dropWhile isWhiteSpace str)
      in if take 8 s = ''Infinity'' then (if neg then NegInf else PosInf)
         else parseDecimal neg s)"

text \<open>
  \<open>Number.prototype.toString\<close> in radix 10, after ECMAScript: with \<open>k\<close> significant
  digits \<open>s\<close> and the value \<open>s * 10 ^ (n - k)\<close>, plain digits when \<open>k \<le> n \<le> 21\<close>, a decimal
  point inside when \<open>0 < n \<le> 21\<close>, leading \<open>0.\<close> when \<open>-6 < n \<le> 0\<close>, exponent notation
  otherwise.
\<close>

definition posToString :: "int \<Rightarrow> int \<Rightarrow> string" where
  "posToString m e =
     (let ds = intDigits m; s = stripZeros ds;
          k = int (length s); n = k + e + int (length ds - length s)
      in if k \<le> n \<and> n \<le> 21 then s @ replicate (nat (n - k)) (CHR ''0'')
         else if 0 < n \<and> n \<le> 21 then take (nat n) s @ ''.'' @ drop (nat n) s
         else if - 6 < n \<and> n \<le> 0 then ''0.'' @ replicate (nat (- n)) (CHR ''0'') @ s
         else
           let ex = (if n - 1 < 0 then ''-'' else ''+'') @ intDigits \<bar>n - 1\<bar>
           in if k = 1 then s @ ''e'' @ ex
              else take 1 s @ ''.'' @ drop 1 s @ ''e'' @ ex)"

fun numToString :: "jsnum \<Rightarrow> string" where
  "numToString NaN = ''NaN''"
| "numToString PosInf = ''Infinity''"
| "numToString NegInf = ''-Infinity''"
| "numToString (Fin m e) =
     (if m = 0 then ''0''
      else if m < 0 then ''-'' @ posToString (- m) e
      else posToString m e)"

text \<open>The characters a printed number is made of.\<close>

definition numberChars :: "char set" where
  "numberChars = set ''0123456789.e+-NaInfity''"

text \<open>
  The canonical form of a Number: the mantissa of a finite value has no trailing decimal
  zero, and zero is \<open>Fin 0 0\<close>, so that each value has one representative. Every number
  that \<open>parseFloat\<close> returns is canonical (\<open>parseFloat_canonical\<close> below).
\<close>

definition canonical :: "jsnum \<Rightarrow> bool" where
  "canonical x =
     (case x of Fin m e \<Rightarrow> (if m = 0 then e = 0 else m mod 10 \<noteq> 0) | _ \<Rightarrow> True)"

section \<open>Dates and the environment\<close>

text \<open>
  A \<open>Date\<close> holds a time value in milliseconds or is invalid. What the code takes from its
  environment is a parameter: the identifier that \<open>crypto.randomUUID()\<close> returns and the
  clock that \<open>new Date()\<close> reads while line \<open>i\<close> is processed, the date that
  \<open>new Date(text)\<close> parses, and the text that \<open>toISOString\<close> prints for a time value.
\<close>

datatype jsdate = InvalidDate | Time int

datatype js_error = RangeError

record platform =
  randomUUID :: "nat \<Rightarrow> string"
  clockNow :: "nat \<Rightarrow> int"
  dateParse :: "string \<Rightarrow> jsdate"
  isoString :: "int \<Rightarrow> string"

text \<open>\<open>toISOString\<close> throws a \<open>RangeError\<close> on an invalid date.\<close>

fun toISOString :: "platform \<Rightarrow> jsdate \<Rightarrow> js_error + string" where
  "toISOString env InvalidDate = Inl RangeError"
| "toISOString env (Time t) = Inr (isoString env t)"

section \<open>The record model\<close>

text \<open>
  The interfaces of \<open>types/exoplanet.ts\<close>. An optional field is an \<open>option\<close>. The fields
  \<open>id\<close> and \<open>notes\<close> carry a prime, the first being a constant of the logic and the second
  a keyword of the proof language.
\<close>

record StellarProperties =
  radius :: jsnum
  temperature :: jsnum
  magnitude :: jsnum

record ExoplanetData =
  id' :: string
  name :: string
  orbitalPeriod :: jsnum
  transitDepth :: jsnum
  transitDuration :: jsnum
  signalToNoiseRatio :: jsnum
  stellarProperties :: StellarProperties
  dateAdded :: jsdate
  notes' :: "string option"
  result :: "string option"

text \<open>
  The form input: every field is the text the user typed. The fields whose names the
  record above already uses carry the suffix \<open>_in\<close>.
\<close>

record ExoplanetFormData =
  name_in :: string
  orbitalPeriod_in :: string
  transitDepth_in :: string
  transitDuration_in :: string
  signalToNoiseRatio_in :: string
  stellarRadius :: string
  stellarTemperature :: string
  stellarMagnitude :: string
  notes_in :: "string option"

text \<open>An entry of \<open>failed\<close> (its \<open>data\<close> are the tokens of the row) and the result of an import.\<close>

record FailedRow =
  row :: nat
  error :: string
  data :: "string list"

record ImportResult =
  successful :: "ExoplanetData list"
  failed :: "FailedRow list"


section \<open>The field validator\<close>

text \<open>
  \<open>(formData as any)[field]\<close>: the field of the form that a key names; a key that names
  no field gives \<open>undefined\<close>, and \<open>parseFloat(undefined)\<close> is \<open>NaN\<close>.
\<close>

definition getField :: "ExoplanetFormData \<Rightarrow> string \<Rightarrow> string option" where
  "getField formData field =
     (if field = ''name'' then Some (name_in formData)
      else if field = ''orbitalPeriod'' then Some (orbitalPeriod_in formData)
      else if field = ''transitDepth'' then Some (transitDepth_in formData)
      else if field = ''transitDuration'' then Some (transitDuration_in formData)
      else if field = ''signalToNoiseRatio'' then Some (signalToNoiseRatio_in formData)
      else if field = ''stellarRadius'' then Some (stellarRadius formData)
      else if field = ''stellarTemperature'' then Some (stellarTemperature formData)
      else if field = ''stellarMagnitude'' then Some (stellarMagnitude formData)
      else if field = ''notes'' then notes_in formData
      else None)"

definition parseFloatOf :: "string option \<Rightarrow> jsnum" where
  "parseFloatOf v = (case v of None \<Rightarrow> NaN | Some s \<Rightarrow> parseFloat s)"

text \<open>The table \<open>numericFields\<close>: the key, the display name and the minimum of each field.\<close>

definition numericFields :: "(string \<times> string \<times> jsnum option) list" where
  "numericFields =
     [(''orbitalPeriod'', ''Orbital Period'', Some (Fin 0 0)),
      (''transitDepth'', ''Transit Depth'', Some (Fin 0 0)),
      (''transitDuration'', ''Transit Duration'', Some (Fin 0 0)),
      (''signalToNoiseRatio'', ''Signal-to-Noise Ratio'', Some (Fin 0 0)),
      (''stellarRadius'', ''Stellar Radius'', Some (Fin 0 0)),
      (''stellarTemperature'', ''Stellar Temperature'', Some (Fin 0 0)),
      (''stellarMagnitude'', ''Stellar Magnitude'', None)]"

text \<open>The body of the \<open>forEach\<close>: the errors so far, extended by what one field adds.\<close>

definition checkField ::
  "ExoplanetFormData \<Rightarrow> string list \<Rightarrow> string \<times> string \<times> jsnum option \<Rightarrow> string list" where
  "checkField formData errors entry =
     (case entry of (field, nm, minimum) \<Rightarrow>
        let v = parseFloatOf (getField formData field)
        in if isNaN v then errors @ [nm @ '' must be a valid number'']
           else (case minimum of
                   None \<Rightarrow> errors
                 | Some m \<Rightarrow>
                     if num_less v m
                     then errors @ [nm @ '' must be greater than '' @ numToString m]
                     else errors))"

definition validateFormData :: "ExoplanetFormData \<Rightarrow> string list" where
  "validateFormData formData =
     foldl (checkField formData)
       (if trim (name_in formData) = [] then [''Name is required''] else [])
       numericFields"

section \<open>Export\<close>

definition headers :: "string list" where
  "headers =
     [''Name'', ''Orbital Period (days)'', ''Transit Depth (ppm)'',
      ''Transit Duration (hours)'', ''Signal-to-Noise Ratio'',
      ''Stellar Radius (Solar Radii)'', ''Stellar Temperature (K)'',
      ''Stellar Magnitude'', ''Date Added'', ''Notes'']"

text \<open>\<open>v || ''\<close> on an optional string: absent and empty both give the empty string.\<close>

definition orEmpty :: "string option \<Rightarrow> string" where
  "orEmpty v = (case v of None \<Rightarrow> [] | Some s \<Rightarrow> s)"

text \<open>The cells of one record; the row is lost when \<open>toISOString\<close> throws.\<close>

definition baseRow :: "platform \<Rightarrow> bool \<Rightarrow> ExoplanetData \<Rightarrow> js_error + string list" where
  "baseRow env includeResult item =
     (case toISOString env (dateAdded item) of
        Inl e \<Rightarrow> Inl e
      | Inr stamp \<Rightarrow>
          Inr ([name item,
                numToString (orbitalPeriod item),
                numToString (transitDepth item),
                numToString (transitDuration item),
                numToString (signalToNoiseRatio item),
                numToString (radius (stellarProperties item)),
                numToString (temperature (stellarProperties item)),
                numToString (magnitude (stellarProperties item)),
                stamp,
                orEmpty (notes' item)]
               @ (if includeResult then [orEmpty (result item)] else [])))"

fun exportRows :: "platform \<Rightarrow> bool \<Rightarrow> ExoplanetData list \<Rightarrow> js_error + string list list" where
  "exportRows env includeResult [] = Inr []"
| "exportRows env includeResult (item # items) =
     (case baseRow env includeResult item of
        Inl e \<Rightarrow> Inl e
      | Inr r \<Rightarrow>
          (case exportRows env includeResult items of
             Inl e \<Rightarrow> Inl e
           | Inr rs \<Rightarrow> Inr (r # rs)))"

definition exportToCSV :: "platform \<Rightarrow> ExoplanetData list \<Rightarrow> bool \<Rightarrow> js_error + string" where
  "exportToCSV env items includeResult =
     (case exportRows env includeResult items of
        Inl e \<Rightarrow> Inl e
      | Inr rows \<Rightarrow>
          Inr (join [lf]
                 (map encodeRow
                    ((headers @ (if includeResult then [''Result''] else [])) # rows))))"

section \<open>Import\<close>

text \<open>
  \<open>cells[k]\<close> reads \<open>undefined\<close> past the end of the array; \<open>undefined\<close> and the empty
  string are the falsy values a cell can have.
\<close>

definition cellAt :: "string list \<Rightarrow> nat \<Rightarrow> string option" where
  "cellAt cells k = (if k < length cells then Some (cells ! k) else None)"

definition truthy :: "string option \<Rightarrow> bool" where
  "truthy v = (case v of None \<Rightarrow> False | Some s \<Rightarrow> s \<noteq> [])"

text \<open>
  The record that the object literal builds from the cells of line \<open>i\<close>. It is built only
  behind the guard \<open>cells.length < 8\<close>, so the cells 0 to 7 are there.
\<close>

definition buildExoplanet :: "platform \<Rightarrow> nat \<Rightarrow> string list \<Rightarrow> ExoplanetData" where
  "buildExoplanet env i cells =
     \<lparr> id' = randomUUID env i,
       name = cells ! 0,
       orbitalPeriod = parseFloat (cells ! 1),
       transitDepth = parseFloat (cells ! 2),
       transitDuration = parseFloat (cells ! 3),
       signalToNoiseRatio = parseFloat (cells ! 4),
       stellarProperties =
         \<lparr> radius = parseFloat (cells ! 5),
           temperature = parseFloat (cells ! 6),
           magnitude = parseFloat (cells ! 7) \<rparr>,
       dateAdded =
         (if truthy (cellAt cells 8) then dateParse env (orEmpty (cellAt cells 8))
          else Time (clockNow env i)),
       notes' = (if truthy (cellAt cells 9) then cellAt cells 9 else None),
       result = None \<rparr>"

definition requiredNumbers :: "ExoplanetData \<Rightarrow> jsnum list" where
  "requiredNumbers exoplanet =
     [orbitalPeriod exoplanet,
      transitDepth exoplanet,
      transitDuration exoplanet,
      signalToNoiseRatio exoplanet,
      radius (stellarProperties exoplanet),
      temperature (stellarProperties exoplanet),
      magnitude (stellarProperties exoplanet)]"

text \<open>
  The body of the loop for line \<open>i\<close>; each \<open>continue\<close> is a branch that returns the
  result so far. Nothing in the \<open>try\<close> block raises on a string (the tokenizer,
  \<open>parseFloat\<close>, the \<open>Date\<close> constructor, \<open>crypto.randomUUID\<close> and the reads of \<open>cells\<close>
  are total), so the \<open>catch\<close> arm has no case here.
\<close>

definition importRow :: "platform \<Rightarrow> nat \<Rightarrow> string \<Rightarrow> ImportResult \<Rightarrow> ImportResult" where
  "importRow env i line res =
     (let cells = parseCSVLine line
      in if length cells < 8
         then res\<lparr>failed := failed res @
                [\<lparr>row = i + 1, error = ''Insufficient columns'', data = cells\<rparr>]\<rparr>
         else
           let exoplanet = buildExoplanet env i cells
           in if list_ex isNaN (requiredNumbers exoplanet) \<or> trim (name exoplanet) = []
              then res\<lparr>failed := failed res @
                     [\<lparr>row = i + 1, error = ''Invalid data format'', data = cells\<rparr>]\<rparr>
              else res\<lparr>successful := successful res @ [exoplanet]\<rparr>)"

text \<open>\<open>for (let i = 1; i < lines.length; i++)\<close>.\<close>

function importLoop :: "platform \<Rightarrow> string list \<Rightarrow> nat \<Rightarrow> ImportResult \<Rightarrow> ImportResult" where
  "importLoop env lines i res =
     (if i < length lines
      then importLoop env lines (i + 1) (importRow env i (lines ! i) res)
      else res)"
  by pat_completeness auto
termination
  by (relation "measure (\<lambda>(env, lines, i, res). length lines - i)") auto

declare importLoop.simps [simp del]

definition importFromCSV :: "platform \<Rightarrow> string \<Rightarrow> ImportResult" where
  "importFromCSV env csvContent =
     importLoop env (split_nl (trim csvContent)) 1 \<lparr>successful = [], failed = []\<rparr>"


section \<open>Rows as the import classifies them\<close>

text \<open>
  A data row is valid when it has at least 8 tokens, each of the seven numeric tokens
  parses to a number, and the name is not empty after trimming; \<open>rowFailure\<close> is the
  entry recorded for line \<open>i\<close> otherwise. \<open>importRow_cases\<close> below shows that the loop body
  classifies rows in exactly this way.
\<close>

definition rowValid :: "string \<Rightarrow> bool" where
  "rowValid line =
     (let cells = parseCSVLine line
      in 8 \<le> length cells
         \<and> \<not> isNaN (parseFloat (cells ! 1)) \<and> \<not> isNaN (parseFloat (cells ! 2))
         \<and> \<not> isNaN (parseFloat (cells ! 3)) \<and> \<not> isNaN (parseFloat (cells ! 4))
         \<and> \<not> isNaN (parseFloat (cells ! 5)) \<and> \<not> isNaN (parseFloat (cells ! 6))
         \<and> \<not> isNaN (parseFloat (cells ! 7))
         \<and> trim (cells ! 0) \<noteq> [])"

definition rowFailure :: "nat \<Rightarrow> string \<Rightarrow> FailedRow" where
  "rowFailure i line =
     (let cells = parseCSVLine line
      in \<lparr>row = i + 1,
          error = (if length cells < 8 then ''Insufficient columns'' else ''Invalid data format''),
          data = cells\<rparr>)"

section \<open>Records and their rows\<close>

text \<open>
  \<open>exportable\<close>: what a record needs for its row to be read back. The name is not blank;
  neither the name nor the notes hold a line feed, nor does the result when the Result
  column is written; no number is \<open>NaN\<close>, and \<open>parseFloat\<close> reads each number back from the
  text that \<open>toString\<close> prints for it; the date is valid, the platform prints it as a text
  that is not empty and has no line feed, and the \<open>Date\<close> constructor reads that text
  back as the same time value. On the platform the two laws of reading back hold of
  every number but \<open>NaN\<close> and of every valid date. \<open>reimported\<close> is the record that comes
  back from line \<open>j\<close>: a fresh identifier, empty notes as absent notes, no result, and
  every other field as it was. \<open>exportedCells\<close> are the cells of the record's row.
\<close>

definition exportable :: "platform \<Rightarrow> bool \<Rightarrow> ExoplanetData \<Rightarrow> bool" where
  "exportable env includeResult item =
     (trim (name item) \<noteq> []
      \<and> lf \<notin> set (name item)
      \<and> lf \<notin> set (orEmpty (notes' item))
      \<and> lf \<notin> set (if includeResult then orEmpty (result item) else [])
      \<and> list_all (\<lambda>x. \<not> isNaN x \<and> parseFloat (numToString x) = x) (requiredNumbers item)
      \<and> (case dateAdded item of
            InvalidDate \<Rightarrow> False
          | Time t \<Rightarrow>
              isoString env t \<noteq> [] \<and> lf \<notin> set (isoString env t)
              \<and> dateParse env (isoString env t) = Time t))"

definition reimported :: "platform \<Rightarrow> nat \<Rightarrow> ExoplanetData \<Rightarrow> ExoplanetData" where
  "reimported env j item =
     item\<lparr>id' := randomUUID env j,
          notes' := (if notes' item = Some [] then None else notes' item),
          result := None\<rparr>"

definition exportedCells :: "platform \<Rightarrow> bool \<Rightarrow> ExoplanetData \<Rightarrow> string list" where
  "exportedCells env includeResult item =
     (case baseRow env includeResult item of Inl e \<Rightarrow> [] | Inr cells \<Rightarrow> cells)"

text \<open>
  The round trip in the words of the specification: a valid record has a name that is
  not blank, six numbers that are not negative and a magnitude that is a number; two
  records are the same observation when they agree in every field but the identifier
  and the date; a list round-trips exactly when its export succeeds and the import of
  the text has no failure and gives the same observations in the same order.
\<close>

definition validObservation :: "ExoplanetData \<Rightarrow> bool" where
  "validObservation item =
     (trim (name item) \<noteq> []
      \<and> list_all (\<lambda>x. \<not> isNaN x \<and> \<not> num_less x (Fin 0 0))
            [orbitalPeriod item, transitDepth item, transitDuration item,
             signalToNoiseRatio item, radius (stellarProperties item),
             temperature (stellarProperties item)]
      \<and> \<not> isNaN (magnitude (stellarProperties item)))"

definition sameObservation :: "ExoplanetData \<Rightarrow> ExoplanetData \<Rightarrow> bool" where
  "sameObservation a b =
     (name a = name b
      \<and> orbitalPeriod a = orbitalPeriod b
      \<and> transitDepth a = transitDepth b
      \<and> transitDuration a = transitDuration b
      \<and> signalToNoiseRatio a = signalToNoiseRatio b
      \<and> stellarProperties a = stellarProperties b
      \<and> notes' a = notes' b
      \<and> result a = result b)"

definition roundTripsExactly :: "platform \<Rightarrow> bool \<Rightarrow> ExoplanetData list \<Rightarrow> bool" where
  "roundTripsExactly env includeResult items =
     (case exportToCSV env items includeResult of
        Inl e \<Rightarrow> False
      | Inr csv \<Rightarrow>
          failed (importFromCSV env csv) = []
          \<and> list_all2 sameObservation (successful (importFromCSV env csv)) items)"

section \<open>A sample environment\<close>

text \<open>
  The environment of the worked examples: it prints and parses the two timestamps the
  examples use as the platform does, and reads the clock at 2024-01-01T00:00:00.000Z.
\<close>

definition samplePlatform :: platform where
  "samplePlatform =
     \<lparr> randomUUID = (\<lambda>i. ''uuid-'' @ intDigits (int i)),
       clockNow = (\<lambda>i. 1704067200000),
       dateParse =
         (\<lambda>s. if s = ''1970-01-01T00:00:00.000Z'' then Time 0
              else if s = ''2024-01-01T00:00:00.000Z'' then Time 1704067200000
              else InvalidDate),
       isoString =
         (\<lambda>t. if t = 0 then ''1970-01-01T00:00:00.000Z'' else ''2024-01-01T00:00:00.000Z'') \<rparr>"


text \<open>
  Sample files: one with three valid rows and one row whose transit depth is not a
  number, one with the header alone, and one with a row of five tokens.
\<close>

definition csvHeader :: string where
  "csvHeader = ''Name,Orbital Period (days),Transit Depth (ppm),Transit Duration (hours),Signal-to-Noise Ratio,Stellar Radius (Solar Radii),Stellar Temperature (K),Stellar Magnitude,Date Added,Notes''"

definition csvPartial :: string where
  "csvPartial =
     csvHeader @ [lf] @
     ''Kepler-442b,112.3,850.2,6.25,15.8,1.2,5770,13.2,2024-01-01T00:00:00.000Z,Example exoplanet data'' @ [lf] @
     ''HD 40307 g,197.8,twelve,8.12,12.4,0.77,4977,7.17,2024-01-01T00:00:00.000Z,Another example'' @ [lf] @
     ''Kepler-22b,289.9,492,7.4,20.1,0.98,5518,11.7'' @ [lf] @
     ''TRAPPIST-1e,6.1,5190,0.95,30,0.12,2559,18.8,,'' @ [lf]"

definition csvHeaderOnly :: string where
  "csvHeaderOnly = csvHeader @ [lf]"

definition csvShortRow :: string where
  "csvShortRow =
     csvHeader @ [lf] @
     ''Kepler-442b,112.3,850.2,6.25,15.8'' @ [lf] @
     ''Kepler-22b,289.9,492,7.4,20.1,0.98,5518,11.7'' @ [lf]"

text \<open>A form whose fields are all valid, with the magnitude \<open>-1.5\<close>.\<close>

definition sampleForm :: ExoplanetFormData where
  "sampleForm =
     \<lparr> name_in = ''Kepler-442b'', orbitalPeriod_in = ''112.3'', transitDepth_in = ''850.2'',
       transitDuration_in = ''6.25'', signalToNoiseRatio_in = ''15.8'', stellarRadius = ''1.2'',
       stellarTemperature = ''5770'', stellarMagnitude = ''-1.5'', notes_in = None \<rparr>"

text \<open>
  A record whose name holds a comma and two double quotes, a second record, and a file
  whose only data row has a negative orbital period.
\<close>

definition keplerQuoted :: ExoplanetData where
  "keplerQuoted =
     \<lparr> id' = ''3f2a'',
       name = ''Kepler, '' @ [dq] @ ''442b'' @ [dq],
       orbitalPeriod = Fin 1123 (- 1),
       transitDepth = Fin 8502 (- 1),
       transitDuration = Fin 625 (- 2),
       signalToNoiseRatio = Fin 158 (- 1),
       stellarProperties = \<lparr> radius = Fin 12 (- 1), temperature = Fin 577 1, magnitude = Fin 132 (- 1) \<rparr>,
       dateAdded = Time 0,
       notes' = Some ''Example exoplanet data'',
       result = None \<rparr>"

definition hd40307g :: ExoplanetData where
  "hd40307g =
     \<lparr> id' = ''9c1e'',
       name = ''HD 40307 g'',
       orbitalPeriod = Fin 1978 (- 1),
       transitDepth = Fin 12005 (- 1),
       transitDuration = Fin 812 (- 2),
       signalToNoiseRatio = Fin 124 (- 1),
       stellarProperties = \<lparr> radius = Fin 77 (- 2), temperature = Fin 4977 0, magnitude = Fin (- 15) (- 1) \<rparr>,
       dateAdded = Time 1704067200000,
       notes' = None,
       result = None \<rparr>"

definition csvNegative :: string where
  "csvNegative =
     csvHeader @ [lf] @ ''Kepler-442b,-112.3,850.2,6.25,15.8,1.2,5770,13.2'' @ [lf]"

section \<open>Facts about the string functions\<close>

lemma splitLoop_not_Nil: "splitLoop s piece \<noteq> []"
  by (induction s arbitrary: piece) auto

lemma split_nl_not_Nil: "split_nl s \<noteq> []"
  by (simp add: split_nl_def splitLoop_not_Nil)

lemma splitLoop_no_lf: "lf \<notin> set s \<Longrightarrow> splitLoop s piece = [piece @ s]"
  by (induction s arbitrary: piece) auto

lemma split_nl_single: "lf \<notin> set s \<Longrightarrow> split_nl s = [s]"
  by (simp add: split_nl_def splitLoop_no_lf)

section \<open>Facts about the tokenizer\<close>

lemma escapeQuotes_Cons:
  "escapeQuotes (x # xs) = (if x = dq then [dq, dq] else [x]) @ escapeQuotes xs"
  by (simp add: escapeQuotes_def)

text \<open>Inside quotes the tokenizer reads an escaped cell back, up to the closing quote.\<close>

lemma parseCSVLoop_quoted:
  "rest = [] \<or> hd rest \<noteq> dq \<Longrightarrow>
   parseCSVLoop (escapeQuotes cell @ dq # rest) acc cur True
     = parseCSVLoop rest acc (cur @ cell) False"
proof (induction cell arbitrary: cur)
  case Nil
  then show ?case by (auto simp: escapeQuotes_def)
next
  case (Cons x xs)
  show ?case
  proof (cases "x = dq")
    case True
    then show ?thesis
      using Cons.IH[OF Cons.prems, of "cur @ [dq]"] by (simp add: escapeQuotes_Cons)
  next
    case False
    then show ?thesis
      using Cons.IH[OF Cons.prems, of "cur @ [x]"] by (simp add: escapeQuotes_Cons)
  qed
qed

lemma parseCSVLoop_encodeRow:
  "parseCSVLoop (encodeRow (c # cs)) acc [] False = acc @ c # cs"
proof (induction cs arbitrary: c acc)
  case Nil
  show ?case
    using parseCSVLoop_quoted[of "[]" c acc "[]"]
    by (simp add: encodeRow_def quoteCell_def)
next
  case (Cons d ds)
  have "parseCSVLoop (encodeRow (c # d # ds)) acc [] False
        = parseCSVLoop (escapeQuotes c @ dq # (CHR '','' # encodeRow (d # ds))) acc [] True"
    by (simp add: encodeRow_def quoteCell_def)
  also have "\<dots> = parseCSVLoop (CHR '','' # encodeRow (d # ds)) acc c False"
    using parseCSVLoop_quoted[of "CHR '','' # encodeRow (d # ds)" c acc "[]"] by simp
  also have "\<dots> = parseCSVLoop (encodeRow (d # ds)) (acc @ [c]) [] False"
    by simp
  also have "\<dots> = (acc @ [c]) @ d # ds"
    by (rule Cons.IH)
  finally show ?case by simp
qed

lemma parseCSVLine_encodeRow: "cells \<noteq> [] \<Longrightarrow> parseCSVLine (encodeRow cells) = cells"
  by (cases cells) (simp_all add: parseCSVLine_def parseCSVLoop_encodeRow)

section \<open>Facts about lines and rows of text\<close>

lemma dropWhile_unchanged: "xs \<noteq> [] \<Longrightarrow> \<not> P (hd xs) \<Longrightarrow> dropWhile P xs = xs"
  by (cases xs) simp_all

lemma trim_unchanged:
  assumes "s \<noteq> []" and "\<not> isWhiteSpace (hd s)" and "\<not> isWhiteSpace (last s)"
  shows "trim s = s"
proof -
  have a: "dropWhile isWhiteSpace s = s"
    using assms(1,2) by (rule dropWhile_unchanged)
  have "rev s \<noteq> []" and "\<not> isWhiteSpace (hd (rev s))"
    using assms(1,3) by (simp_all add: hd_rev)
  then have b: "dropWhile isWhiteSpace (rev s) = rev s"
    by (rule dropWhile_unchanged)
  show ?thesis by (simp add: trim_def a b)
qed

lemma join_Cons: "ls \<noteq> [] \<Longrightarrow> join sep (l # ls) = l @ sep @ join sep ls"
  by (cases ls) simp_all

lemma join_not_Nil: "l \<noteq> [] \<Longrightarrow> join sep (l # ls) \<noteq> []"
  by (cases ls) simp_all

lemma hd_join: "l \<noteq> [] \<Longrightarrow> hd (join sep (l # ls)) = hd l"
  by (cases ls) simp_all

lemma last_join:
  "ls \<noteq> [] \<Longrightarrow> \<forall>l \<in> set ls. l \<noteq> [] \<Longrightarrow> last (join sep ls) = last (last ls)"
proof (induction ls rule: list_nonempty_induct)
  case (single l)
  show ?case by simp
next
  case (cons l ls)
  have "join sep ls \<noteq> []"
    using cons.hyps cons.prems by (cases ls) (simp_all add: join_not_Nil)
  then show ?case
    using cons by (simp add: join_Cons)
qed

lemma set_join: "set (join sep ls) \<subseteq> set sep \<union> \<Union> (set ` set ls)"
  by (induction sep ls rule: join.induct) auto

lemma set_escapeQuotes: "set (escapeQuotes c) \<subseteq> insert dq (set c)"
  by (induction c) (auto simp: escapeQuotes_Cons escapeQuotes_def)

lemma lf_notin_encodeRow:
  assumes "\<forall>c \<in> set cells. lf \<notin> set c"
  shows "lf \<notin> set (encodeRow cells)"
proof
  assume "lf \<in> set (encodeRow cells)"
  then have "lf \<in> set '','' \<union> \<Union> (set ` set (map quoteCell cells))"
    using set_join[of "'',''" "map quoteCell cells"] by (auto simp: encodeRow_def)
  then obtain c where "c \<in> set cells" and "lf \<in> set (quoteCell c)"
    by auto
  then have "lf \<in> set c"
    using set_escapeQuotes[of c] by (auto simp: quoteCell_def)
  with assms \<open>c \<in> set cells\<close> show False by blast
qed

lemma encodeRow_ends:
  assumes "cells \<noteq> []"
  shows "encodeRow cells \<noteq> [] \<and> hd (encodeRow cells) = dq \<and> last (encodeRow cells) = dq"
proof -
  obtain c cs where c: "cells = c # cs" using assms by (cases cells) auto
  have q: "\<forall>l \<in> set (map quoteCell cells). l \<noteq> []"
    by (simp add: quoteCell_def)
  have l: "last (encodeRow cells) = last (last (map quoteCell cells))"
    unfolding encodeRow_def using assms q by (intro last_join) simp_all
  have "last (map quoteCell cells) = quoteCell (last cells)"
    using assms by (simp add: last_map)
  then have "last (encodeRow cells) = dq"
    using l by (simp add: quoteCell_def)
  moreover have "encodeRow cells \<noteq> []" and "hd (encodeRow cells) = dq"
    by (simp_all add: c encodeRow_def join_not_Nil hd_join quoteCell_def)
  ultimately show ?thesis by simp
qed

lemma splitLoop_line:
  "lf \<notin> set l \<Longrightarrow> splitLoop (l @ lf # rest) piece = (piece @ l) # splitLoop rest []"
  by (induction l arbitrary: piece) auto

lemma split_nl_join:
  "ls \<noteq> [] \<Longrightarrow> \<forall>l \<in> set ls. lf \<notin> set l \<Longrightarrow> split_nl (join [lf] ls) = ls"
proof (induction ls rule: list_nonempty_induct)
  case (single l)
  then show ?case by (simp add: split_nl_single)
next
  case (cons l ls)
  have "split_nl (join [lf] (l # ls)) = splitLoop (l @ lf # join [lf] ls) []"
    using cons.hyps by (simp add: join_Cons split_nl_def)
  also have "\<dots> = l # splitLoop (join [lf] ls) []"
    using cons.prems by (simp add: splitLoop_line)
  also have "\<dots> = l # ls"
    using cons by (simp add: split_nl_def)
  finally show ?case .
qed

section \<open>Facts about numbers and their text\<close>

text \<open>The digits that \<open>intDigits\<close> prints, and the characters of a printed number.\<close>

lemma digitChar_table:
  "digitChar 0 = CHR ''0''" "digitChar 1 = CHR ''1''" "digitChar 2 = CHR ''2''"
  "digitChar 3 = CHR ''3''" "digitChar 4 = CHR ''4''" "digitChar 5 = CHR ''5''"
  "digitChar 6 = CHR ''6''" "digitChar 7 = CHR ''7''" "digitChar 8 = CHR ''8''"
  "digitChar 9 = CHR ''9''"
  by code_simp+

lemma digit_cases:
  "0 \<le> d \<Longrightarrow> d < 10 \<Longrightarrow> (d::int) \<in> {0, 1, 2, 3, 4, 5, 6, 7, 8, 9}"
  by simp presburger

lemma digitChar_isDigit: "0 \<le> d \<Longrightarrow> d < 10 \<Longrightarrow> isDigit (digitChar d)"
  using digit_cases[of d] by (auto simp: digitChar_table isDigit_def)

lemma intDigits_isDigit: "0 \<le> n \<Longrightarrow> \<forall>c \<in> set (intDigits n). isDigit c"
proof (induction n rule: intDigits.induct)
  case (1 n)
  show ?case
  proof (cases "10 \<le> n")
    case True
    have "0 \<le> n div 10" using "1.prems" by simp
    with "1.IH"[OF True] have "\<forall>c \<in> set (intDigits (n div 10)). isDigit c" by simp
    moreover have "isDigit (digitChar (n mod 10))"
      by (rule digitChar_isDigit) simp_all
    ultimately show ?thesis
      using True by (subst intDigits.simps) simp
  next
    case False
    then have "isDigit (digitChar n)"
      using "1.prems" by (intro digitChar_isDigit) simp_all
    then show ?thesis
      using False by (subst intDigits.simps) simp
  qed
qed

lemma isDigit_numberChars: "isDigit c \<Longrightarrow> c \<in> numberChars"
  by (auto simp: isDigit_def numberChars_def)

lemma set_stripZeros: "set (stripZeros ds) \<subseteq> set ds"
  using set_dropWhileD[of _ "\<lambda>c. c = CHR ''0''" "rev ds"] by (auto simp: stripZeros_def)

lemma posToString_chars:
  assumes "0 \<le> m"
  shows "set (posToString m e) \<subseteq> numberChars"
proof -
  have d: "set (intDigits m) \<subseteq> numberChars"
    using intDigits_isDigit[OF assms] isDigit_numberChars by blast
  then have s: "set (stripZeros (intDigits m)) \<subseteq> numberChars"
    using set_stripZeros[of "intDigits m"] by blast
  have t: "\<And>k. set (take k (stripZeros (intDigits m))) \<subseteq> numberChars"
    using s set_take_subset by fastforce
  have u: "\<And>k. set (drop k (stripZeros (intDigits m))) \<subseteq> numberChars"
    using s set_drop_subset by fastforce
  have x: "\<And>k. set (intDigits \<bar>k\<bar>) \<subseteq> numberChars"
    using intDigits_isDigit isDigit_numberChars by (metis abs_ge_zero subsetI)
  have z: "\<And>k. set (replicate k (CHR ''0'')) \<subseteq> numberChars"
    by (auto simp: numberChars_def)
  have c: "CHR ''.'' \<in> numberChars" "CHR ''e'' \<in> numberChars" "CHR ''+'' \<in> numberChars"
    "CHR ''-'' \<in> numberChars" "CHR ''0'' \<in> numberChars"
    by (simp_all add: numberChars_def)
  show ?thesis
    unfolding posToString_def Let_def
    using s t u x z c by (auto simp del: set_replicate replicate_eq_replicate)
qed

lemma numToString_chars: "set (numToString x) \<subseteq> numberChars"
proof (cases x)
  case (Fin m e)
  show ?thesis
    using posToString_chars[of m e] posToString_chars[of "- m" e]
    by (auto simp: Fin numberChars_def)
qed (simp_all add: numberChars_def)

lemma lf_notin_numToString: "lf \<notin> set (numToString x)"
  using numToString_chars[of x] by (auto simp: numberChars_def)

text \<open>
  Reading back a printed number: \<open>parseFloat_numToString\<close> is the round trip of a canonical
  number through its text, and \<open>parseFloat_canonical\<close> says that parsing produces nothing else.
\<close>

lemma intDigits_not_Nil: "intDigits n \<noteq> []"
  by (subst intDigits.simps) simp

lemma digitVal_digitChar: "0 \<le> d \<Longrightarrow> d < 10 \<Longrightarrow> digitVal (digitChar d) = d"
  using digit_cases[of d] by (auto simp: digitChar_table digitVal_def)

lemma digitsToInt_snoc: "digitsToInt (ds @ [c]) = 10 * digitsToInt ds + digitVal c"
  by (simp add: digitsToInt_def)

lemma digitsToInt_intDigits: "0 \<le> n \<Longrightarrow> digitsToInt (intDigits n) = n"
proof (induction n rule: intDigits.induct)
  case (1 n)
  show ?case
  proof (cases "10 \<le> n")
    case True
    have "digitsToInt (intDigits (n div 10)) = n div 10"
      using "1.IH"[OF True] "1.prems" by simp
    moreover have "digitVal (digitChar (n mod 10)) = n mod 10"
      by (rule digitVal_digitChar) simp_all
    ultimately show ?thesis
      using True by (subst intDigits.simps) (simp add: digitsToInt_snoc)
  next
    case False
    then have "digitVal (digitChar n) = n"
      using "1.prems" by (intro digitVal_digitChar) simp_all
    then show ?thesis
      using False by (subst intDigits.simps) (simp add: digitsToInt_def)
  qed
qed

lemma last_intDigits: "last (intDigits n) = digitChar (if 10 \<le> n then n mod 10 else n)"
  by (subst intDigits.simps) simp

lemma digitChar_zero: "0 \<le> d \<Longrightarrow> d < 10 \<Longrightarrow> digitChar d = CHR ''0'' \<Longrightarrow> d = 0"
  using digitVal_digitChar[of d] by (simp add: digitVal_def)

lemma last_intDigits_not_zero:
  assumes "0 < m" and "m mod 10 \<noteq> 0"
  shows "last (intDigits m) \<noteq> CHR ''0''"
proof
  assume z: "last (intDigits m) = CHR ''0''"
  show False
  proof (cases "10 \<le> m")
    case True
    then have "digitChar (m mod 10) = CHR ''0''" using z by (simp add: last_intDigits)
    then have "m mod 10 = 0" by (intro digitChar_zero) simp_all
    with assms(2) show False by simp
  next
    case False
    then have "digitChar m = CHR ''0''" using z by (simp add: last_intDigits)
    then have "m = 0" using False assms(1) by (intro digitChar_zero) simp_all
    with assms(1) show False by simp
  qed
qed

lemma stripZeros_unchanged: "s \<noteq> [] \<Longrightarrow> last s \<noteq> CHR ''0'' \<Longrightarrow> stripZeros s = s"
proof -
  assume "s \<noteq> []" and "last s \<noteq> CHR ''0''"
  then have "rev s \<noteq> []" and "\<not> (hd (rev s) = CHR ''0'')"
    by (simp_all add: hd_rev)
  then have "dropWhile (\<lambda>c. c = CHR ''0'') (rev s) = rev s"
    by (rule dropWhile_unchanged)
  then show ?thesis by (simp add: stripZeros_def)
qed

lemma stripZeros_trailing: "stripZeros (s @ replicate z (CHR ''0'')) = stripZeros s"
proof -
  have "dropWhile (\<lambda>c. c = CHR ''0'') (replicate z (CHR ''0'') @ rev s)
          = dropWhile (\<lambda>c. c = CHR ''0'') (rev s)"
    by (rule dropWhile_append2) simp
  then show ?thesis by (simp add: stripZeros_def)
qed

lemma digitsToInt_leading_zeros: "digitsToInt (replicate y (CHR ''0'') @ s) = digitsToInt s"
proof -
  have "foldl (\<lambda>n c. 10 * n + digitVal c) 0 (replicate y (CHR ''0'')) = 0"
    by (induction y) (simp_all add: digitVal_def)
  then show ?thesis by (simp add: digitsToInt_def)
qed

lemma mkNumber_digits:
  assumes "0 < m" and "m mod 10 \<noteq> 0"
  shows "mkNumber neg (replicate y (CHR ''0'') @ intDigits m @ replicate z (CHR ''0'')) e
     = Fin (if neg then - m else m) (e + int z)"
proof -
  let ?ds = "replicate y (CHR ''0'') @ intDigits m @ replicate z (CHR ''0'')"
  have l: "last (replicate y (CHR ''0'') @ intDigits m) \<noteq> CHR ''0''"
    using last_intDigits_not_zero[OF assms] by (simp add: intDigits_not_Nil)
  have "stripZeros ?ds = stripZeros (replicate y (CHR ''0'') @ intDigits m)"
    using stripZeros_trailing[of "replicate y (CHR ''0'') @ intDigits m" z] by simp
  also have "\<dots> = replicate y (CHR ''0'') @ intDigits m"
    using l by (intro stripZeros_unchanged) (simp_all add: intDigits_not_Nil)
  finally have s: "stripZeros ?ds = replicate y (CHR ''0'') @ intDigits m" .
  have d: "digitsToInt (replicate y (CHR ''0'') @ intDigits m) = m"
    using assms(1) by (simp add: digitsToInt_leading_zeros digitsToInt_intDigits)
  show ?thesis
    using assms(1) by (simp add: mkNumber_def s d Let_def)
qed

lemma takeWhile_digits:
  assumes "\<forall>c \<in> set ds. isDigit c" and "rest = [] \<or> \<not> isDigit (hd rest)"
  shows "takeWhile isDigit (ds @ rest) = ds" and "dropWhile isDigit (ds @ rest) = rest"
proof -
  have t: "takeWhile isDigit rest = []" and d: "dropWhile isDigit rest = rest"
    using assms(2) by (cases rest; simp)+
  show "takeWhile isDigit (ds @ rest) = ds"
    using assms(1) t by (simp add: takeWhile_append2)
  show "dropWhile isDigit (ds @ rest) = rest"
    using assms(1) d by (simp add: dropWhile_append2)
qed

lemma not_digit:
  "\<not> isDigit (CHR ''.'')" "\<not> isDigit (CHR ''e'')" "\<not> isDigit (CHR ''+'')"
  "\<not> isDigit (CHR ''-'')" "\<not> isDigit (CHR ''I'')"
  by (simp_all add: isDigit_def)

lemma digit_not_space: "isDigit c \<Longrightarrow> \<not> isWhiteSpace c"
  by (auto simp: isDigit_def isWhiteSpace_def)

lemma parseDecimal_integer:
  assumes "\<forall>c \<in> set ip. isDigit c" and "ip \<noteq> []"
    and "rest = [] \<or> (\<not> isDigit (hd rest) \<and> hd rest \<noteq> CHR ''.'')"
  shows "parseDecimal neg (ip @ rest) = mkNumber neg ip (exponentPart rest)"
proof -
  have r: "rest = [] \<or> \<not> isDigit (hd rest)" using assms(3) by blast
  have t: "takeWhile isDigit (ip @ rest) = ip" and d: "dropWhile isDigit (ip @ rest) = rest"
    using takeWhile_digits[OF assms(1) r] by simp_all
  show ?thesis
    unfolding parseDecimal_def t d using assms(2,3)
    by (cases rest) (simp_all add: Let_def)
qed

lemma parseDecimal_fraction:
  assumes "\<forall>c \<in> set ip. isDigit c" and "\<forall>c \<in> set fp. isDigit c" and "ip \<noteq> []"
    and "rest = [] \<or> \<not> isDigit (hd rest)"
  shows "parseDecimal neg (ip @ CHR ''.'' # fp @ rest)
           = mkNumber neg (ip @ fp) (exponentPart rest - int (length fp))"
proof -
  have t: "takeWhile isDigit (ip @ CHR ''.'' # fp @ rest) = ip"
    and d: "dropWhile isDigit (ip @ CHR ''.'' # fp @ rest) = CHR ''.'' # fp @ rest"
    using takeWhile_digits[OF assms(1), of "CHR ''.'' # fp @ rest"] by (simp_all add: not_digit)
  have t2: "takeWhile isDigit (fp @ rest) = fp" and d2: "dropWhile isDigit (fp @ rest) = rest"
    using takeWhile_digits[OF assms(2,4)] by simp_all
  show ?thesis
    unfolding parseDecimal_def t d using assms(3)
    by (simp add: Let_def t2 d2)
qed

lemma exponentPart_Nil: "exponentPart [] = 0"
  by (simp add: exponentPart_def)

lemma takeWhile_intDigits: "0 \<le> n \<Longrightarrow> takeWhile isDigit (intDigits n) = intDigits n"
  using takeWhile_digits(1)[OF intDigits_isDigit, of n "[]"] by simp

lemma exponentPart_printed:
  "exponentPart (''e'' @ (if x < 0 then ''-'' else ''+'') @ intDigits \<bar>x\<bar>) = x"
  by (cases "x < 0")
    (simp_all add: exponentPart_def splitSign_def Let_def takeWhile_intDigits
      digitsToInt_intDigits intDigits_not_Nil)

lemma zero_isDigit: "isDigit (CHR ''0'')"
  by (simp add: isDigit_def)

lemma posToString_parse:
  assumes "0 < m" and "m mod 10 \<noteq> 0"
  shows "parseDecimal neg (posToString m e) = Fin (if neg then - m else m) e
     \<and> posToString m e \<noteq> [] \<and> isDigit (hd (posToString m e))"
proof -
  define s where "s = intDigits m"
  define k where "k = int (length s)"
  define n where "n = k + e"
  define ex where "ex = (if n - 1 < 0 then ''-'' else ''+'') @ intDigits \<bar>n - 1\<bar>"
  have ne: "s \<noteq> []" by (simp add: s_def intDigits_not_Nil)
  have dg: "\<forall>c \<in> set s. isDigit c"
    unfolding s_def using assms(1) by (intro intDigits_isDigit) simp
  have hd_s: "isDigit (hd s)" using ne dg by simp
  have st: "stripZeros (intDigits m) = s"
    unfolding s_def using last_intDigits_not_zero[OF assms]
    by (intro stripZeros_unchanged) (simp_all add: intDigits_not_Nil)
  have k1: "1 \<le> k" using ne by (cases s) (simp_all add: k_def)
  have mk: "\<And>y z x. mkNumber neg (replicate y (CHR ''0'') @ s @ replicate z (CHR ''0'')) x
      = Fin (if neg then - m else m) (x + int z)"
    unfolding s_def by (rule mkNumber_digits[OF assms])
  have mk0: "\<And>x. mkNumber neg s x = Fin (if neg then - m else m) x"
    using mk[of 0 0] by simp
  have p: "posToString m e =
     (if k \<le> n \<and> n \<le> 21 then s @ replicate (nat (n - k)) (CHR ''0'')
      else if 0 < n \<and> n \<le> 21 then take (nat n) s @ ''.'' @ drop (nat n) s
      else if - 6 < n \<and> n \<le> 0 then ''0.'' @ replicate (nat (- n)) (CHR ''0'') @ s
      else if k = 1 then s @ ''e'' @ ex
      else take 1 s @ ''.'' @ drop 1 s @ ''e'' @ ex)"
    by (simp add: posToString_def Let_def st k_def n_def ex_def s_def)
  consider (A) "k \<le> n \<and> n \<le> 21"
    | (B) "\<not> (k \<le> n \<and> n \<le> 21)" "0 < n \<and> n \<le> 21"
    | (C) "\<not> (k \<le> n \<and> n \<le> 21)" "\<not> (0 < n \<and> n \<le> 21)" "- 6 < n \<and> n \<le> 0"
    | (D1) "\<not> (k \<le> n \<and> n \<le> 21)" "\<not> (0 < n \<and> n \<le> 21)" "\<not> (- 6 < n \<and> n \<le> 0)" "k = 1"
    | (D2) "\<not> (k \<le> n \<and> n \<le> 21)" "\<not> (0 < n \<and> n \<le> 21)" "\<not> (- 6 < n \<and> n \<le> 0)" "k \<noteq> 1"
    by blast
  then show ?thesis
  proof cases
    case A
    then have o: "posToString m e = s @ replicate (nat (n - k)) (CHR ''0'')"
      by (simp add: p)
    have "parseDecimal neg ((s @ replicate (nat (n - k)) (CHR ''0'')) @ [])
            = mkNumber neg (s @ replicate (nat (n - k)) (CHR ''0'')) (exponentPart [])"
      using dg ne by (intro parseDecimal_integer) (auto simp: zero_isDigit)
    also have "\<dots> = Fin (if neg then - m else m) (0 + int (nat (n - k)))"
      using mk[of 0 "nat (n - k)" 0] by (simp add: exponentPart_Nil)
    also have "0 + int (nat (n - k)) = e"
      using A by (simp add: n_def)
    finally show ?thesis
      using ne hd_s by (simp add: o)
  next
    case B
    have o: "posToString m e = take (nat n) s @ CHR ''.'' # drop (nat n) s"
      by (simp only: p B(1) if_False) (simp add: B(2))
    have nk: "n < k" using B by linarith
    have tne: "take (nat n) s \<noteq> []" using B ne by simp
    have td: "\<forall>c \<in> set (take (nat n) s). isDigit c" "\<forall>c \<in> set (drop (nat n) s). isDigit c"
      using dg by (auto dest: in_set_takeD in_set_dropD)
    have "parseDecimal neg (take (nat n) s @ CHR ''.'' # drop (nat n) s @ [])
            = mkNumber neg (take (nat n) s @ drop (nat n) s)
                (exponentPart [] - int (length (drop (nat n) s)))"
      using td tne by (intro parseDecimal_fraction) simp_all
    also have "\<dots> = Fin (if neg then - m else m) (0 - int (length (drop (nat n) s)))"
      by (simp add: mk0 exponentPart_Nil)
    also have "0 - int (length (drop (nat n) s)) = e"
      using B nk by (simp add: n_def k_def)
    finally show ?thesis
      using tne B ne dg by (simp add: o hd_append)
  next
    case C
    have o: "posToString m e = ''0'' @ CHR ''.'' # (replicate (nat (- n)) (CHR ''0'') @ s)"
      by (simp only: p C(1,2) if_False) (simp add: C(3))
    have z: "\<forall>c \<in> set ''0''. isDigit c" by (simp add: zero_isDigit)
    have f: "\<forall>c \<in> set (replicate (nat (- n)) (CHR ''0'') @ s). isDigit c"
      using dg by (auto simp: zero_isDigit)
    have "parseDecimal neg (''0'' @ CHR ''.'' # (replicate (nat (- n)) (CHR ''0'') @ s) @ [])
            = mkNumber neg (''0'' @ (replicate (nat (- n)) (CHR ''0'') @ s))
                (exponentPart [] - int (length (replicate (nat (- n)) (CHR ''0'') @ s)))"
      using z f by (intro parseDecimal_fraction) simp_all
    also have "''0'' @ (replicate (nat (- n)) (CHR ''0'') @ s)
        = replicate (Suc (nat (- n))) (CHR ''0'') @ s @ replicate 0 (CHR ''0'')"
      by simp
    also have "mkNumber neg (replicate (Suc (nat (- n))) (CHR ''0'') @ s @ replicate 0 (CHR ''0''))
        (exponentPart [] - int (length (replicate (nat (- n)) (CHR ''0'') @ s)))
        = Fin (if neg then - m else m)
            (exponentPart [] - int (length (replicate (nat (- n)) (CHR ''0'') @ s)) + int 0)"
      by (rule mk)
    also have "exponentPart [] - int (length (replicate (nat (- n)) (CHR ''0'') @ s)) + int 0 = e"
      using C by (simp add: exponentPart_Nil n_def k_def)
    finally show ?thesis
      by (simp add: o zero_isDigit)
  next
    case D1
    have o: "posToString m e = s @ (''e'' @ ex)"
      by (simp only: p D1(1,2,3) if_False) (simp add: D1(4))
    have "parseDecimal neg (s @ (''e'' @ ex)) = mkNumber neg s (exponentPart (''e'' @ ex))"
      using dg ne by (intro parseDecimal_integer) (simp_all add: not_digit)
    also have "exponentPart (''e'' @ ex) = n - 1"
      unfolding ex_def by (rule exponentPart_printed)
    also have "mkNumber neg s (n - 1) = Fin (if neg then - m else m) (n - 1)"
      by (rule mk0)
    also have "n - 1 = e" using D1 by (simp add: n_def)
    finally show ?thesis
      using ne hd_s by (simp add: o)
  next
    case D2
    have o: "posToString m e = take 1 s @ CHR ''.'' # drop 1 s @ (''e'' @ ex)"
      by (simp only: p D2(1,2,3) if_False) (simp add: D2(4))
    have tne: "take 1 s \<noteq> []" using ne by simp
    have td: "\<forall>c \<in> set (take 1 s). isDigit c" "\<forall>c \<in> set (drop 1 s). isDigit c"
      using dg by (auto dest: in_set_takeD in_set_dropD)
    have "parseDecimal neg (take 1 s @ CHR ''.'' # drop 1 s @ (''e'' @ ex))
            = mkNumber neg (take 1 s @ drop 1 s)
                (exponentPart (''e'' @ ex) - int (length (drop 1 s)))"
      using td tne by (intro parseDecimal_fraction) (simp_all add: not_digit)
    also have "exponentPart (''e'' @ ex) = n - 1"
      unfolding ex_def by (rule exponentPart_printed)
    also have "mkNumber neg (take 1 s @ drop 1 s) (n - 1 - int (length (drop 1 s)))
        = Fin (if neg then - m else m) (n - 1 - int (length (drop 1 s)))"
      by (simp add: mk0)
    also have "n - 1 - int (length (drop 1 s)) = e"
      using k1 by (simp add: n_def k_def)
    finally show ?thesis
      using ne hd_s by (cases s) (simp_all add: o)
  qed
qed

lemma parseFloat_unsigned:
  assumes "s \<noteq> []" and "isDigit (hd s)"
  shows "parseFloat s = parseDecimal False s"
    and "parseFloat (CHR ''-'' # s) = parseDecimal True s"
proof -
  obtain c cs where s: "s = c # cs" using assms(1) by (cases s) auto
  have c: "isDigit c" using assms(2) by (simp add: s)
  have w: "\<not> isWhiteSpace c" using c by (rule digit_not_space)
  have g: "c \<noteq> CHR ''-''" "c \<noteq> CHR ''+''" "c \<noteq> CHR ''I''"
    using c not_digit by auto
  have i: "take 8 s \<noteq> ''Infinity''"
    using g(3) by (auto simp: s)
  have m: "\<not> isWhiteSpace (CHR ''-'')" by (simp add: isWhiteSpace_def)
  show "parseFloat s = parseDecimal False s"
    using i w g by (simp add: parseFloat_def splitSign_def s)
  show "parseFloat (CHR ''-'' # s) = parseDecimal True s"
    using i m by (simp add: parseFloat_def splitSign_def)
qed

lemma parseFloat_numToString:
  assumes "canonical x"
  shows "parseFloat (numToString x) = x"
proof (cases x)
  case NaN
  show ?thesis unfolding NaN by code_simp
next
  case PosInf
  show ?thesis unfolding PosInf by code_simp
next
  case NegInf
  show ?thesis unfolding NegInf by code_simp
next
  case (Fin m e)
  consider (zero) "m = 0" | (pos) "0 < m" | (neg) "m < 0" by linarith
  then show ?thesis
  proof cases
    case zero
    then have "e = 0" using assms by (simp add: canonical_def Fin)
    moreover have "parseFloat ''0'' = Fin 0 0" by code_simp
    ultimately show ?thesis by (simp add: Fin zero)
  next
    case pos
    then have c: "m mod 10 \<noteq> 0" using assms by (simp add: canonical_def Fin)
    have "parseFloat (posToString m e) = parseDecimal False (posToString m e)"
      using posToString_parse[OF pos c, of False e] by (intro parseFloat_unsigned) simp_all
    then show ?thesis
      using posToString_parse[OF pos c, of False e] pos by (simp add: Fin)
  next
    case neg
    then have p: "0 < - m" by simp
    have "m mod 10 \<noteq> 0" using assms neg by (simp add: canonical_def Fin)
    then have c: "(- m) mod 10 \<noteq> 0" by presburger
    have "parseFloat (CHR ''-'' # posToString (- m) e) = parseDecimal True (posToString (- m) e)"
      using posToString_parse[OF p c, of True e] by (intro parseFloat_unsigned) simp_all
    then show ?thesis
      using posToString_parse[OF p c, of True e] neg by (simp add: Fin)
  qed
qed

lemma digitVal_range:
  "isDigit c \<Longrightarrow> 0 \<le> digitVal c \<and> digitVal c < 10 \<and> (digitVal c = 0 \<longrightarrow> c = CHR ''0'')"
  by (auto simp: isDigit_def digitVal_def)

lemma stripZeros_last: "stripZeros ds \<noteq> [] \<Longrightarrow> last (stripZeros ds) \<noteq> CHR ''0''"
proof -
  assume a: "stripZeros ds \<noteq> []"
  then have n: "dropWhile (\<lambda>c. c = CHR ''0'') (rev ds) \<noteq> []"
    by (simp add: stripZeros_def)
  then have "\<not> (hd (dropWhile (\<lambda>c. c = CHR ''0'') (rev ds)) = CHR ''0'')"
    by (rule hd_dropWhile)
  then show ?thesis
    using n by (simp add: stripZeros_def last_rev)
qed

lemma mkNumber_canonical:
  assumes "\<forall>c \<in> set ds. isDigit c"
  shows "canonical (mkNumber neg ds e)"
proof (cases "digitsToInt (stripZeros ds) = 0")
  case True
  then show ?thesis by (simp add: mkNumber_def canonical_def)
next
  case False
  then have ne: "stripZeros ds \<noteq> []"
    by (auto simp: digitsToInt_def)
  then obtain pre c where sc: "stripZeros ds = pre @ [c]"
    by (metis rev_exhaust)
  have "c \<noteq> CHR ''0''"
    using stripZeros_last[OF ne] by (simp add: sc)
  moreover have "isDigit c"
    using assms set_stripZeros[of ds] by (auto simp: sc)
  ultimately have d: "0 < digitVal c" "digitVal c < 10"
    using digitVal_range[of c] by auto
  have v: "digitsToInt (stripZeros ds) = 10 * digitsToInt pre + digitVal c"
    by (simp add: sc digitsToInt_snoc)
  have "digitsToInt (stripZeros ds) mod 10 \<noteq> 0"
    unfolding v using d by presburger
  moreover from this have "(- digitsToInt (stripZeros ds)) mod 10 \<noteq> 0"
    by presburger
  ultimately show ?thesis
    using False by (simp add: mkNumber_def canonical_def Let_def)
qed

lemma canonical_simps: "canonical NaN" "canonical PosInf" "canonical NegInf"
  by (simp_all add: canonical_def)

lemma parseDecimal_canonical: "canonical (parseDecimal neg s)"
  unfolding parseDecimal_def Let_def
  by (auto simp: canonical_simps split: list.splits intro!: mkNumber_canonical
      dest: set_takeWhileD)

lemma parseFloat_canonical: "canonical (parseFloat s)"
  by (simp add: parseFloat_def Let_def canonical_simps parseDecimal_canonical
      split: prod.splits)

section \<open>Facts about the import loop\<close>

lemma importRow_cases:
  "importRow env i line res =
     (if rowValid line
      then res\<lparr>successful := successful res @ [buildExoplanet env i (parseCSVLine line)]\<rparr>
      else res\<lparr>failed := failed res @ [rowFailure i line]\<rparr>)"
  by (auto simp: importRow_def rowValid_def rowFailure_def Let_def requiredNumbers_def
      buildExoplanet_def)

lemma importLoop_char:
  "importLoop env lines i res =
     \<lparr>successful = successful res @
        map (\<lambda>j. buildExoplanet env j (parseCSVLine (lines ! j)))
          (filter (\<lambda>j. rowValid (lines ! j)) [i..<length lines]),
      failed = failed res @
        map (\<lambda>j. rowFailure j (lines ! j))
          (filter (\<lambda>j. \<not> rowValid (lines ! j)) [i..<length lines])\<rparr>"
proof (induction env lines i res rule: importLoop.induct)
  case (1 env lines i res)
  show ?case
  proof (cases "i < length lines")
    case True
    then have u: "[i..<length lines] = i # [i + 1..<length lines]"
      by (simp add: upt_conv_Cons)
    show ?thesis
      using True 1[OF True]
      by (subst importLoop.simps) (simp add: u importRow_cases)
  next
    case False
    then show ?thesis by (subst importLoop.simps) simp
  qed
qed

lemma importFromCSV_char:
  "importFromCSV env csv =
     \<lparr>successful =
        map (\<lambda>j. buildExoplanet env j (parseCSVLine (split_nl (trim csv) ! j)))
          (filter (\<lambda>j. rowValid (split_nl (trim csv) ! j)) [1..<length (split_nl (trim csv))]),
      failed =
        map (\<lambda>j. rowFailure j (split_nl (trim csv) ! j))
          (filter (\<lambda>j. \<not> rowValid (split_nl (trim csv) ! j)) [1..<length (split_nl (trim csv))])\<rparr>"
  by (simp add: importFromCSV_def importLoop_char)

lemma nth_upt_drop: "map (\<lambda>j. xs ! j) [i..<length xs] = drop i xs"
  by (metis drop_map drop_upt map_nth add_0)

lemma filter_index_drop:
  "map (\<lambda>j. xs ! j) (filter (\<lambda>j. P (xs ! j)) [i..<length xs]) = filter P (drop i xs)"
proof -
  have "filter P (map (\<lambda>j. xs ! j) [i..<length xs]) = filter P (drop i xs)"
    by (simp only: nth_upt_drop)
  then show ?thesis
    by (simp add: filter_map comp_def)
qed

lemma count_index_drop:
  "length (filter (\<lambda>j. P (xs ! j)) [i..<length xs]) = length (filter P (drop i xs))"
  using arg_cong[OF filter_index_drop[of xs P i], of length] by simp


section \<open>Facts about exported rows\<close>

lemma exportable_cells:
  assumes "exportable env includeResult item"
  obtains t where "dateAdded item = Time t"
    and "exportedCells env includeResult item =
      [name item, numToString (orbitalPeriod item), numToString (transitDepth item),
       numToString (transitDuration item), numToString (signalToNoiseRatio item),
       numToString (radius (stellarProperties item)),
       numToString (temperature (stellarProperties item)),
       numToString (magnitude (stellarProperties item)),
       isoString env t, orEmpty (notes' item)]
      @ (if includeResult then [orEmpty (result item)] else [])"
    and "baseRow env includeResult item = Inr (exportedCells env includeResult item)"
    and "isoString env t \<noteq> []" and "lf \<notin> set (isoString env t)"
    and "dateParse env (isoString env t) = Time t"
proof -
  from assms obtain t where t: "dateAdded item = Time t" "isoString env t \<noteq> []"
    "lf \<notin> set (isoString env t)" "dateParse env (isoString env t) = Time t"
    by (auto simp: exportable_def split: jsdate.splits)
  show thesis
    by (rule that[of t]) (simp_all add: t exportedCells_def baseRow_def)
qed

lemma exportable_no_lf:
  assumes "exportable env includeResult item"
  shows "\<forall>c \<in> set (exportedCells env includeResult item). lf \<notin> set c"
proof -
  from assms obtain t where c: "exportedCells env includeResult item =
      [name item, numToString (orbitalPeriod item), numToString (transitDepth item),
       numToString (transitDuration item), numToString (signalToNoiseRatio item),
       numToString (radius (stellarProperties item)),
       numToString (temperature (stellarProperties item)),
       numToString (magnitude (stellarProperties item)),
       isoString env t, orEmpty (notes' item)]
      @ (if includeResult then [orEmpty (result item)] else [])"
    and "lf \<notin> set (isoString env t)"
    by (rule exportable_cells)
  moreover have "lf \<notin> set (name item)" and "lf \<notin> set (orEmpty (notes' item))"
    and "lf \<notin> set (if includeResult then orEmpty (result item) else [])"
    using assms by (simp_all add: exportable_def)
  ultimately show ?thesis
    by (cases includeResult) (simp_all add: lf_notin_numToString)
qed

lemma exportable_row:
  assumes "exportable env includeResult item"
  shows "rowValid (encodeRow (exportedCells env includeResult item))
     \<and> buildExoplanet env j (parseCSVLine (encodeRow (exportedCells env includeResult item)))
         = reimported env j item"
proof -
  from assms obtain t where t: "dateAdded item = Time t"
    and c: "exportedCells env includeResult item =
      [name item, numToString (orbitalPeriod item), numToString (transitDepth item),
       numToString (transitDuration item), numToString (signalToNoiseRatio item),
       numToString (radius (stellarProperties item)),
       numToString (temperature (stellarProperties item)),
       numToString (magnitude (stellarProperties item)),
       isoString env t, orEmpty (notes' item)]
      @ (if includeResult then [orEmpty (result item)] else [])"
    and i: "isoString env t \<noteq> []" "dateParse env (isoString env t) = Time t"
    by (rule exportable_cells)
  have p: "parseCSVLine (encodeRow (exportedCells env includeResult item))
      = exportedCells env includeResult item"
    by (rule parseCSVLine_encodeRow) (simp add: c)
  have n: "list_all (\<lambda>x. \<not> isNaN x \<and> parseFloat (numToString x) = x) (requiredNumbers item)"
    and m: "trim (name item) \<noteq> []"
    using assms by (simp_all add: exportable_def)
  have v: "rowValid (encodeRow (exportedCells env includeResult item))"
    unfolding rowValid_def p Let_def using n m
    by (simp add: c requiredNumbers_def)
  have b: "buildExoplanet env j (exportedCells env includeResult item) = reimported env j item"
    using n i t
    by (cases "notes' item")
      (auto simp: buildExoplanet_def reimported_def c requiredNumbers_def cellAt_def truthy_def
        orEmpty_def intro!: ExoplanetData.equality StellarProperties.equality)
  show ?thesis using v b by (simp add: p)
qed

lemma exportRows_exportable:
  "list_all (exportable env includeResult) items \<Longrightarrow>
   exportRows env includeResult items = Inr (map (exportedCells env includeResult) items)"
proof (induction items)
  case Nil
  show ?case by simp
next
  case (Cons item items)
  then have "exportable env includeResult item" by simp
  then have "baseRow env includeResult item = Inr (exportedCells env includeResult item)"
    by (rule exportable_cells)
  with Cons show ?case by simp
qed

lemma map_index_zip:
  "map (\<lambda>j. f j ((h # xs) ! j)) [1..<Suc (length xs)]
     = map (\<lambda>(j, x). f j x) (zip [1..<Suc (length xs)] xs)"
  by (rule nth_equalityI) (simp_all add: nth_upt del: upt_Suc)

lemma headers_no_lf:
  "\<forall>c \<in> set (headers @ (if includeResult then [''Result''] else [])). lf \<notin> set c"
  by (simp add: headers_def)

text \<open>
  In this model \<open>parseFloat\<close> reads back the printed text of every number that it has
  itself produced.
\<close>

lemma parseFloat_reads_back_parsed: "parseFloat (numToString (parseFloat s)) = parseFloat s"
  by (rule parseFloat_numToString) (rule parseFloat_canonical)

section \<open>Per-row isolation of failures\<close>

text \<open>
  C4. The import isolates failures per row and never aborts the batch: the records in
  \<open>successful\<close> are exactly those built from the valid data rows, in order, and the
  entries of \<open>failed\<close> are exactly those of the invalid data rows, in order; so there is
  one record for each valid row and one failure for each invalid row.
\<close>

theorem import_partitions_rows:
  "successful (importFromCSV env csv) =
     map (\<lambda>j. buildExoplanet env j (parseCSVLine (split_nl (trim csv) ! j)))
       (filter (\<lambda>j. rowValid (split_nl (trim csv) ! j)) [1..<length (split_nl (trim csv))])
   \<and> failed (importFromCSV env csv) =
     map (\<lambda>j. rowFailure j (split_nl (trim csv) ! j))
       (filter (\<lambda>j. \<not> rowValid (split_nl (trim csv) ! j)) [1..<length (split_nl (trim csv))])
   \<and> length (successful (importFromCSV env csv))
       = length (filter rowValid (drop 1 (split_nl (trim csv))))
   \<and> length (failed (importFromCSV env csv))
       = length (filter (\<lambda>l. \<not> rowValid l) (drop 1 (split_nl (trim csv))))"
  using count_index_drop[of rowValid "split_nl (trim csv)" 1]
    count_index_drop[of "\<lambda>l. \<not> rowValid l" "split_nl (trim csv)" 1]
  by (simp add: importFromCSV_char)

text \<open>
  The file with three valid rows and one row whose transit depth is \<open>twelve\<close> gives three
  records and one failure.
\<close>

theorem import_partitions_rows_witness:
  "length (successful (importFromCSV samplePlatform csvPartial)) = 3
   \<and> length (failed (importFromCSV samplePlatform csvPartial)) = 1"
proof -
  have a: "length (filter rowValid (drop 1 (split_nl (trim csvPartial)))) = 3"
    by code_simp
  have b: "length (filter (\<lambda>l. \<not> rowValid l) (drop 1 (split_nl (trim csvPartial)))) = 1"
    by code_simp
  from import_partitions_rows[of samplePlatform csvPartial]
  have "length (successful (importFromCSV samplePlatform csvPartial))
          = length (filter rowValid (drop 1 (split_nl (trim csvPartial))))"
    and "length (failed (importFromCSV samplePlatform csvPartial))
          = length (filter (\<lambda>l. \<not> rowValid l) (drop 1 (split_nl (trim csvPartial))))"
    by blast+
  with a b show ?thesis by simp
qed

section \<open>Rows with fewer than 8 tokens\<close>

text \<open>
  C5. A data row that tokenizes to fewer than 8 tokens is recorded in \<open>failed\<close> with the
  error \<open>Insufficient columns\<close> and its tokens, and the loop goes on with the next line.
\<close>

theorem insufficient_columns_recorded:
  assumes "1 \<le> i" and "i < length (split_nl (trim csv))"
    and "length (parseCSVLine (split_nl (trim csv) ! i)) < 8"
  shows "\<lparr>row = i + 1, error = ''Insufficient columns'',
          data = parseCSVLine (split_nl (trim csv) ! i)\<rparr> \<in> set (failed (importFromCSV env csv))
     \<and> (\<forall>res. importLoop env (split_nl (trim csv)) i res =
           importLoop env (split_nl (trim csv)) (i + 1)
             (res\<lparr>failed := failed res @
                [\<lparr>row = i + 1, error = ''Insufficient columns'',
                  data = parseCSVLine (split_nl (trim csv) ! i)\<rparr>]\<rparr>))"
proof
  have nv: "\<not> rowValid (split_nl (trim csv) ! i)"
    using assms(3) by (simp add: rowValid_def Let_def)
  have rf: "rowFailure i (split_nl (trim csv) ! i) =
      \<lparr>row = i + 1, error = ''Insufficient columns'',
        data = parseCSVLine (split_nl (trim csv) ! i)\<rparr>"
    using assms(3) by (simp add: rowFailure_def Let_def)
  have "i \<in> set (filter (\<lambda>j. \<not> rowValid (split_nl (trim csv) ! j))
                    [1..<length (split_nl (trim csv))])"
    using assms(1,2) nv by simp
  then have "rowFailure i (split_nl (trim csv) ! i) \<in> set (failed (importFromCSV env csv))"
    unfolding importFromCSV_char by (simp only: ImportResult.simps set_map) (rule imageI)
  then show "\<lparr>row = i + 1, error = ''Insufficient columns'',
          data = parseCSVLine (split_nl (trim csv) ! i)\<rparr> \<in> set (failed (importFromCSV env csv))"
    by (simp only: rf)
  show "\<forall>res. importLoop env (split_nl (trim csv)) i res =
           importLoop env (split_nl (trim csv)) (i + 1)
             (res\<lparr>failed := failed res @
                [\<lparr>row = i + 1, error = ''Insufficient columns'',
                  data = parseCSVLine (split_nl (trim csv) ! i)\<rparr>]\<rparr>)"
  proof
    fix res
    show "importLoop env (split_nl (trim csv)) i res =
           importLoop env (split_nl (trim csv)) (i + 1)
             (res\<lparr>failed := failed res @
                [\<lparr>row = i + 1, error = ''Insufficient columns'',
                  data = parseCSVLine (split_nl (trim csv) ! i)\<rparr>]\<rparr>)"
      using assms(2) nv rf
      by (subst importLoop.simps) (simp add: importRow_cases)
  qed
qed

text \<open>A row of five tokens, followed by a valid row.\<close>

theorem insufficient_columns_recorded_witness:
  "\<lparr>row = 2, error = ''Insufficient columns'',
     data = [''Kepler-442b'', ''112.3'', ''850.2'', ''6.25'', ''15.8'']\<rparr>
     \<in> set (failed (importFromCSV samplePlatform csvShortRow))"
proof -
  have a: "1 < length (split_nl (trim csvShortRow))" by code_simp
  have b: "parseCSVLine (split_nl (trim csvShortRow) ! 1)
             = [''Kepler-442b'', ''112.3'', ''850.2'', ''6.25'', ''15.8'']" by code_simp
  have c: "length (parseCSVLine (split_nl (trim csvShortRow) ! 1)) < 8"
    unfolding b by simp
  show ?thesis
    using insufficient_columns_recorded[of 1 csvShortRow samplePlatform, OF _ a c]
    unfolding b by (simp add: numeral_2_eq_2)
qed

section \<open>Row numbers of failures\<close>

text \<open>
  C3, as amended. Every entry of \<open>failed\<close> carries the index of its line plus one, the
  header being line 0: the failure for the line with index \<open>j\<close> has \<open>row = j + 1\<close>, so the
  header counts as row 1 and the first data row as row 2. Its \<open>data\<close> are the tokens of
  that line.
\<close>

theorem failed_rows_carry_line_number:
  "map row (failed (importFromCSV env csv)) =
     map (\<lambda>j. j + 1)
       (filter (\<lambda>j. \<not> rowValid (split_nl (trim csv) ! j)) [1..<length (split_nl (trim csv))])
   \<and> map data (failed (importFromCSV env csv)) =
     map (\<lambda>j. parseCSVLine (split_nl (trim csv) ! j))
       (filter (\<lambda>j. \<not> rowValid (split_nl (trim csv) ! j)) [1..<length (split_nl (trim csv))])"
  by (simp add: importFromCSV_char rowFailure_def Let_def comp_def)

text \<open>In the sample file the row that fails is line 2, and it is reported as row 3.\<close>

theorem failed_rows_carry_line_number_witness:
  "map row (failed (importFromCSV samplePlatform csvPartial)) = [3]"
proof -
  have "map (\<lambda>j. j + 1)
          (filter (\<lambda>j. \<not> rowValid (split_nl (trim csvPartial) ! j))
             [1..<length (split_nl (trim csvPartial))]) = [3]"
    by code_simp
  with failed_rows_carry_line_number[of samplePlatform csvPartial]
  show ?thesis by simp
qed

text \<open>
  C3 as stated, with the header as row 0 and the failure of line \<open>i\<close> reported as row
  \<open>i\<close>, does not hold: line 2 of the sample file fails and is reported as row 3, not 2.
\<close>

theorem row_number_counterexample:
  "\<not> rowValid (split_nl (trim csvPartial) ! 2)
   \<and> map row (failed (importFromCSV samplePlatform csvPartial)) = [3]
   \<and> map row (failed (importFromCSV samplePlatform csvPartial)) \<noteq> [2]"
  by code_simp

section \<open>Totality and partition of the import\<close>

text \<open>
  C10. \<open>importFromCSV\<close> is a total function (its loop terminates and no step raises), and
  every data line contributes exactly one entry: the lengths of \<open>successful\<close> and \<open>failed\<close>
  add up to the number of lines after the first. An input that has no line feed after
  trimming, the header alone, gives two empty lists.
\<close>

theorem import_total_partition:
  "length (successful (importFromCSV env csv)) + length (failed (importFromCSV env csv))
     = length (split_nl (trim csv)) - 1
   \<and> (lf \<notin> set (trim csv) \<longrightarrow> importFromCSV env csv = \<lparr>successful = [], failed = []\<rparr>)"
proof
  show "length (successful (importFromCSV env csv)) + length (failed (importFromCSV env csv))
     = length (split_nl (trim csv)) - 1"
    using sum_length_filter_compl[of "\<lambda>j. rowValid (split_nl (trim csv) ! j)"
        "[1..<length (split_nl (trim csv))]"]
    by (simp add: importFromCSV_char)
  show "lf \<notin> set (trim csv) \<longrightarrow> importFromCSV env csv = \<lparr>successful = [], failed = []\<rparr>"
    by (simp add: importFromCSV_char split_nl_single)
qed

text \<open>The header alone gives two empty lists; the sample file has four data lines.\<close>

theorem import_total_partition_witness:
  "lf \<notin> set (trim csvHeaderOnly)
   \<and> importFromCSV samplePlatform csvHeaderOnly = \<lparr>successful = [], failed = []\<rparr>
   \<and> length (successful (importFromCSV samplePlatform csvPartial))
       + length (failed (importFromCSV samplePlatform csvPartial)) = 4"
proof -
  have a: "lf \<notin> set (trim csvHeaderOnly)" by code_simp
  have b: "length (split_nl (trim csvPartial)) - 1 = 4" by code_simp
  show ?thesis
    using a b import_total_partition[of samplePlatform csvHeaderOnly]
      import_total_partition[of samplePlatform csvPartial]
    by simp
qed

section \<open>The field validator collects errors\<close>

lemma checkField_append: "checkField f errs entry = errs @ checkField f [] entry"
  by (cases entry) (simp add: checkField_def Let_def split: option.splits)

lemma foldl_checkField:
  "foldl (checkField f) errs entries = errs @ concat (map (checkField f []) entries)"
proof (induction entries arbitrary: errs)
  case Nil
  show ?case by simp
next
  case (Cons entry entries)
  show ?case
    using Cons.IH[of "checkField f errs entry"] checkField_append[of f errs entry] by simp
qed

lemma validateFormData_char:
  "validateFormData f =
     (if trim (name_in f) = [] then [''Name is required''] else [])
     @ concat (map (checkField f []) numericFields)"
  by (simp add: validateFormData_def foldl_checkField)

lemma num_less_not_NaN: "num_less v m \<Longrightarrow> \<not> isNaN v"
  by (cases v) (simp_all add: isNaN_def)

lemma checkField_below_minimum:
  "getField f field = Some s \<Longrightarrow> num_less (parseFloat s) m \<Longrightarrow>
   checkField f [] (field, nm, Some m) = [nm @ '' must be greater than '' @ numToString m]"
  using num_less_not_NaN[of "parseFloat s" m]
  by (simp add: checkField_def parseFloatOf_def)

lemma checkField_accepts:
  "getField f field = Some s \<Longrightarrow> \<not> isNaN (parseFloat s) \<Longrightarrow>
   (\<And>m. minimum = Some m \<Longrightarrow> \<not> num_less (parseFloat s) m) \<Longrightarrow>
   checkField f [] (field, nm, minimum) = []"
  by (simp add: checkField_def parseFloatOf_def split: option.splits)

lemma checkField_not_a_number:
  "getField f field = Some s \<Longrightarrow> isNaN (parseFloat s) \<Longrightarrow>
   checkField f [] (field, nm, minimum) = [nm @ '' must be a valid number'']"
  by (simp add: checkField_def parseFloatOf_def)

text \<open>
  C6. \<open>validateFormData\<close> applies every field rule and collects all errors: when the name
  is empty after trimming and the orbital period parses to a negative number, the list
  starts with the error for the name and the error for the orbital period, two distinct
  strings.
\<close>

theorem validator_collects_all_errors:
  assumes "trim (name_in formData) = []"
    and "num_less (parseFloat (orbitalPeriod_in formData)) (Fin 0 0)"
  shows "take 2 (validateFormData formData)
           = [''Name is required'', ''Orbital Period must be greater than 0'']
     \<and> ''Name is required'' \<in> set (validateFormData formData)
     \<and> ''Orbital Period must be greater than 0'' \<in> set (validateFormData formData)
     \<and> ''Name is required'' \<noteq> ''Orbital Period must be greater than 0''
     \<and> 2 \<le> length (validateFormData formData)"
proof -
  have g: "getField formData ''orbitalPeriod'' = Some (orbitalPeriod_in formData)"
    by (simp add: getField_def)
  have c: "checkField formData [] (''orbitalPeriod'', ''Orbital Period'', Some (Fin 0 0))
             = [''Orbital Period must be greater than 0'']"
    using checkField_below_minimum[OF g assms(2), of "''Orbital Period''"] by simp
  obtain rest where v: "validateFormData formData
      = ''Name is required'' # ''Orbital Period must be greater than 0'' # rest"
    using assms(1) c by (simp add: validateFormData_char numericFields_def)
  show ?thesis by (simp add: v)
qed

text \<open>A blank name and the orbital period \<open>-3\<close>, all other fields valid.\<close>

theorem validator_collects_all_errors_witness:
  "validateFormData (sampleForm\<lparr>name_in := ''   '', orbitalPeriod_in := ''-3''\<rparr>)
     = [''Name is required'', ''Orbital Period must be greater than 0'']"
proof -
  have a: "trim (name_in (sampleForm\<lparr>name_in := ''   '', orbitalPeriod_in := ''-3''\<rparr>)) = []"
    by code_simp
  have b: "num_less (parseFloat (orbitalPeriod_in
             (sampleForm\<lparr>name_in := ''   '', orbitalPeriod_in := ''-3''\<rparr>))) (Fin 0 0)"
    by code_simp
  have n: "length (validateFormData
             (sampleForm\<lparr>name_in := ''   '', orbitalPeriod_in := ''-3''\<rparr>)) = 2"
    by code_simp
  from validator_collects_all_errors[OF a b]
  have "take 2 (validateFormData (sampleForm\<lparr>name_in := ''   '', orbitalPeriod_in := ''-3''\<rparr>))
          = [''Name is required'', ''Orbital Period must be greater than 0'']"
    by blast
  with n show ?thesis by simp
qed

text \<open>
  C7. No minimum applies to \<open>stellarMagnitude\<close>: when it parses to a finite number, of
  either sign, and every other field is valid, there is no error at all; when it does
  not parse, the list has the error \<open>Stellar Magnitude must be a valid number\<close>.
\<close>

theorem magnitude_has_no_minimum:
  "(trim (name_in f) \<noteq> []
      \<and> (\<forall>s \<in> set [orbitalPeriod_in f, transitDepth_in f, transitDuration_in f,
                     signalToNoiseRatio_in f, stellarRadius f, stellarTemperature f].
            \<not> isNaN (parseFloat s) \<and> \<not> num_less (parseFloat s) (Fin 0 0))
      \<and> parseFloat (stellarMagnitude f) = Fin m e
      \<longrightarrow> validateFormData f = [])
   \<and> (isNaN (parseFloat (stellarMagnitude f))
      \<longrightarrow> ''Stellar Magnitude must be a valid number'' \<in> set (validateFormData f))"
proof (intro conjI impI)
  assume a: "trim (name_in f) \<noteq> []
      \<and> (\<forall>s \<in> set [orbitalPeriod_in f, transitDepth_in f, transitDuration_in f,
                     signalToNoiseRatio_in f, stellarRadius f, stellarTemperature f].
            \<not> isNaN (parseFloat s) \<and> \<not> num_less (parseFloat s) (Fin 0 0))
      \<and> parseFloat (stellarMagnitude f) = Fin m e"
  have ok: "\<And>field s nm. getField f field = Some s \<Longrightarrow> \<not> isNaN (parseFloat s) \<Longrightarrow>
      \<not> num_less (parseFloat s) (Fin 0 0) \<Longrightarrow> checkField f [] (field, nm, Some (Fin 0 0)) = []"
    by (rule checkField_accepts) simp_all
  have m: "checkField f [] (''stellarMagnitude'', ''Stellar Magnitude'', None) = []"
    using a by (intro checkField_accepts[of f _ "stellarMagnitude f"])
      (simp_all add: getField_def isNaN_def)
  have "checkField f [] (''orbitalPeriod'', ''Orbital Period'', Some (Fin 0 0)) = []"
    and "checkField f [] (''transitDepth'', ''Transit Depth'', Some (Fin 0 0)) = []"
    and "checkField f [] (''transitDuration'', ''Transit Duration'', Some (Fin 0 0)) = []"
    and "checkField f [] (''signalToNoiseRatio'', ''Signal-to-Noise Ratio'', Some (Fin 0 0)) = []"
    and "checkField f [] (''stellarRadius'', ''Stellar Radius'', Some (Fin 0 0)) = []"
    and "checkField f [] (''stellarTemperature'', ''Stellar Temperature'', Some (Fin 0 0)) = []"
    using a
    by (intro ok[of _ "orbitalPeriod_in f"] ok[of _ "transitDepth_in f"]
          ok[of _ "transitDuration_in f"] ok[of _ "signalToNoiseRatio_in f"]
          ok[of _ "stellarRadius f"] ok[of _ "stellarTemperature f"];
        simp add: getField_def)+
  with m a show "validateFormData f = []"
    by (simp add: validateFormData_char numericFields_def)
next
  assume n: "isNaN (parseFloat (stellarMagnitude f))"
  have g: "getField f ''stellarMagnitude'' = Some (stellarMagnitude f)"
    by (simp add: getField_def)
  have "checkField f [] (''stellarMagnitude'', ''Stellar Magnitude'', None)
          = [''Stellar Magnitude must be a valid number'']"
    using checkField_not_a_number[OF g n, of "''Stellar Magnitude''" None] by simp
  then show "''Stellar Magnitude must be a valid number'' \<in> set (validateFormData f)"
    by (simp add: validateFormData_char numericFields_def)
qed

text \<open>The magnitude \<open>-1.5\<close> passes; the magnitude \<open>bright\<close> does not.\<close>

theorem magnitude_has_no_minimum_witness:
  "parseFloat (stellarMagnitude sampleForm) = Fin (- 15) (- 1)
   \<and> validateFormData sampleForm = []
   \<and> ''Stellar Magnitude must be a valid number''
        \<in> set (validateFormData (sampleForm\<lparr>stellarMagnitude := ''bright''\<rparr>))"
proof -
  have a: "trim (name_in sampleForm) \<noteq> []" by code_simp
  have b: "\<forall>s \<in> set [orbitalPeriod_in sampleForm, transitDepth_in sampleForm,
                     transitDuration_in sampleForm, signalToNoiseRatio_in sampleForm,
                     stellarRadius sampleForm, stellarTemperature sampleForm].
            \<not> isNaN (parseFloat s) \<and> \<not> num_less (parseFloat s) (Fin 0 0)"
    by code_simp
  have c: "parseFloat (stellarMagnitude sampleForm) = Fin (- 15) (- 1)" by code_simp
  have d: "isNaN (parseFloat (stellarMagnitude (sampleForm\<lparr>stellarMagnitude := ''bright''\<rparr>)))"
    by code_simp
  show ?thesis
    using a b c d magnitude_has_no_minimum[of sampleForm "- 15" "- 1"]
      magnitude_has_no_minimum[of "sampleForm\<lparr>stellarMagnitude := ''bright''\<rparr>"]
    by blast
qed

section \<open>Quote safety of the codec\<close>

text \<open>
  C8. Encoding a record and tokenizing the resulting row returns every cell unchanged,
  whatever characters it holds; in particular the first token is the name of the
  record, also when the name contains commas and double quotes. The row is the second
  line of what \<open>exportToCSV\<close> writes for the record.
\<close>

theorem name_survives_tokenizing:
  assumes "baseRow env includeResult item = Inr cells"
  shows "exportToCSV env [item] includeResult =
           Inr (encodeRow (headers @ (if includeResult then [''Result''] else []))
                @ [lf] @ encodeRow cells)
     \<and> parseCSVLine (encodeRow cells) = cells
     \<and> parseCSVLine (encodeRow cells) ! 0 = name item"
proof -
  obtain stamp where c: "cells =
      [name item, numToString (orbitalPeriod item), numToString (transitDepth item),
       numToString (transitDuration item), numToString (signalToNoiseRatio item),
       numToString (radius (stellarProperties item)),
       numToString (temperature (stellarProperties item)),
       numToString (magnitude (stellarProperties item)), stamp, orEmpty (notes' item)]
      @ (if includeResult then [orEmpty (result item)] else [])"
    using assms by (auto simp: baseRow_def split: sum.splits)
  have ne: "cells \<noteq> []" by (simp add: c)
  have p: "parseCSVLine (encodeRow cells) = cells"
    by (rule parseCSVLine_encodeRow[OF ne])
  have h: "cells ! 0 = name item" by (simp add: c)
  have e: "exportToCSV env [item] includeResult =
           Inr (encodeRow (headers @ (if includeResult then [''Result''] else []))
                @ [lf] @ encodeRow cells)"
    using assms by (simp add: exportToCSV_def)
  show ?thesis using p h e by simp
qed

text \<open>
  The name \<open>Kepler, "442b"\<close>: its row starts with the quoted cell in which both quotes are
  doubled, and tokenizing the row gives the name back.
\<close>

theorem name_survives_tokenizing_witness:
  "baseRow samplePlatform False keplerQuoted =
     Inr [''Kepler, '' @ [dq] @ ''442b'' @ [dq], ''112.3'', ''850.2'', ''6.25'', ''15.8'',
          ''1.2'', ''5770'', ''13.2'', ''1970-01-01T00:00:00.000Z'', ''Example exoplanet data'']
   \<and> take 23 (encodeRow [''Kepler, '' @ [dq] @ ''442b'' @ [dq], ''112.3''])
       = [dq] @ ''Kepler, '' @ [dq, dq] @ ''442b'' @ [dq, dq, dq] @ '','' @ [dq] @ ''112''
   \<and> parseCSVLine (encodeRow
         [''Kepler, '' @ [dq] @ ''442b'' @ [dq], ''112.3'', ''850.2'', ''6.25'', ''15.8'',
          ''1.2'', ''5770'', ''13.2'', ''1970-01-01T00:00:00.000Z'', ''Example exoplanet data'']) ! 0
       = ''Kepler, '' @ [dq] @ ''442b'' @ [dq]"
proof -
  have b: "baseRow samplePlatform False keplerQuoted =
     Inr [''Kepler, '' @ [dq] @ ''442b'' @ [dq], ''112.3'', ''850.2'', ''6.25'', ''15.8'',
          ''1.2'', ''5770'', ''13.2'', ''1970-01-01T00:00:00.000Z'', ''Example exoplanet data'']"
    by code_simp
  have n: "name keplerQuoted = ''Kepler, '' @ [dq] @ ''442b'' @ [dq]"
    by (simp add: keplerQuoted_def)
  have t: "take 23 (encodeRow [''Kepler, '' @ [dq] @ ''442b'' @ [dq], ''112.3''])
       = [dq] @ ''Kepler, '' @ [dq, dq] @ ''442b'' @ [dq, dq, dq] @ '','' @ [dq] @ ''112''"
    by code_simp
  from name_survives_tokenizing[OF b]
  have "parseCSVLine (encodeRow
         [''Kepler, '' @ [dq] @ ''442b'' @ [dq], ''112.3'', ''850.2'', ''6.25'', ''15.8'',
          ''1.2'', ''5770'', ''13.2'', ''1970-01-01T00:00:00.000Z'', ''Example exoplanet data'']) ! 0
       = name keplerQuoted" by blast
  with b n t show ?thesis by (simp only:) 
qed

section \<open>The date of an imported record\<close>

text \<open>
  C9. For a data row that succeeds, the record appended to \<open>successful\<close> has as
  \<open>dateAdded\<close> the time of the import when the row has exactly 8 tokens or its token 9 is
  the empty string, and the date parsed from token 9 otherwise.
\<close>

theorem dateAdded_of_imported_row:
  assumes "rowValid line"
  shows "importRow env i line res =
           res\<lparr>successful := successful res @ [buildExoplanet env i (parseCSVLine line)]\<rparr>
     \<and> dateAdded (buildExoplanet env i (parseCSVLine line)) =
         (if length (parseCSVLine line) = 8 \<or> parseCSVLine line ! 8 = []
          then Time (clockNow env i)
          else dateParse env (parseCSVLine line ! 8))"
proof -
  have "8 \<le> length (parseCSVLine line)"
    using assms by (simp add: rowValid_def Let_def)
  then have "dateAdded (buildExoplanet env i (parseCSVLine line)) =
         (if length (parseCSVLine line) = 8 \<or> parseCSVLine line ! 8 = []
          then Time (clockNow env i)
          else dateParse env (parseCSVLine line ! 8))"
    by (auto simp: buildExoplanet_def cellAt_def truthy_def orEmpty_def)
  then show ?thesis using assms by (simp add: importRow_cases)
qed

text \<open>A row with a timestamp, a row of 8 tokens, and a row whose token 9 is empty.\<close>

theorem dateAdded_of_imported_row_witness:
  "map dateAdded (successful (importFromCSV samplePlatform csvPartial))
     = [Time 1704067200000, Time (clockNow samplePlatform 3), Time (clockNow samplePlatform 4)]
   \<and> dateAdded (buildExoplanet samplePlatform 1
        (parseCSVLine ''K2-18b,32.9,2900,2.7,21,0.41,3457,13.5,1970-01-01T00:00:00.000Z'')) = Time 0
   \<and> dateAdded (buildExoplanet samplePlatform 3
        (parseCSVLine ''Kepler-22b,289.9,492,7.4,20.1,0.98,5518,11.7'')) = Time (clockNow samplePlatform 3)
   \<and> dateAdded (buildExoplanet samplePlatform 4
        (parseCSVLine ''TRAPPIST-1e,6.1,5190,0.95,30,0.12,2559,18.8,,'')) = Time (clockNow samplePlatform 4)"
proof -
  have v1: "rowValid ''K2-18b,32.9,2900,2.7,21,0.41,3457,13.5,1970-01-01T00:00:00.000Z''"
    by code_simp
  have v3: "rowValid ''Kepler-22b,289.9,492,7.4,20.1,0.98,5518,11.7''" by code_simp
  have v4: "rowValid ''TRAPPIST-1e,6.1,5190,0.95,30,0.12,2559,18.8,,''" by code_simp
  have c1: "parseCSVLine ''K2-18b,32.9,2900,2.7,21,0.41,3457,13.5,1970-01-01T00:00:00.000Z''
      = [''K2-18b'', ''32.9'', ''2900'', ''2.7'', ''21'', ''0.41'', ''3457'', ''13.5'',
         ''1970-01-01T00:00:00.000Z'']" by code_simp
  have c3: "parseCSVLine ''Kepler-22b,289.9,492,7.4,20.1,0.98,5518,11.7''
      = [''Kepler-22b'', ''289.9'', ''492'', ''7.4'', ''20.1'', ''0.98'', ''5518'', ''11.7'']"
    by code_simp
  have c4: "parseCSVLine ''TRAPPIST-1e,6.1,5190,0.95,30,0.12,2559,18.8,,''
      = [''TRAPPIST-1e'', ''6.1'', ''5190'', ''0.95'', ''30'', ''0.12'', ''2559'', ''18.8'', [], []]"
    by code_simp
  have p: "dateParse samplePlatform ''1970-01-01T00:00:00.000Z'' = Time 0"
    by (simp add: samplePlatform_def)
  have m: "map dateAdded (successful (importFromCSV samplePlatform csvPartial))
     = [Time 1704067200000, Time (clockNow samplePlatform 3), Time (clockNow samplePlatform 4)]"
    by code_simp
  have d1: "dateAdded (buildExoplanet samplePlatform 1
        (parseCSVLine ''K2-18b,32.9,2900,2.7,21,0.41,3457,13.5,1970-01-01T00:00:00.000Z'')) = Time 0"
    using dateAdded_of_imported_row[OF v1, of samplePlatform 1] unfolding c1 by (simp add: p)
  have d3: "dateAdded (buildExoplanet samplePlatform 3
        (parseCSVLine ''Kepler-22b,289.9,492,7.4,20.1,0.98,5518,11.7'')) = Time (clockNow samplePlatform 3)"
    using dateAdded_of_imported_row[OF v3, of samplePlatform 3] unfolding c3 by simp
  have d4: "dateAdded (buildExoplanet samplePlatform 4
        (parseCSVLine ''TRAPPIST-1e,6.1,5190,0.95,30,0.12,2559,18.8,,'')) = Time (clockNow samplePlatform 4)"
    using dateAdded_of_imported_row[OF v4, of samplePlatform 4] unfolding c4 by simp
  show ?thesis using m d1 d3 d4 by simp
qed

section \<open>Negative values through the import\<close>

text \<open>
  C2 does not hold of the code. A row whose orbital period is \<open>-112.3\<close> is imported with
  no failure, and the record in \<open>successful\<close> has a negative orbital period; the form
  validator rejects the same text.
\<close>

theorem negative_period_is_imported:
  "failed (importFromCSV samplePlatform csvNegative) = []
   \<and> map name (successful (importFromCSV samplePlatform csvNegative)) = [''Kepler-442b'']
   \<and> map orbitalPeriod (successful (importFromCSV samplePlatform csvNegative)) = [Fin (- 1123) (- 1)]
   \<and> num_less (Fin (- 1123) (- 1)) (Fin 0 0)
   \<and> validateFormData (sampleForm\<lparr>orbitalPeriod_in := ''-112.3''\<rparr>)
       = [''Orbital Period must be greater than 0'']"
  by code_simp


section \<open>The round trip through the codec\<close>

text \<open>
  C1, as amended. For every list of records that are \<open>exportable\<close> (the name is not blank,
  no line feed stands in a cell, the numbers and the date are read back from their own
  printed text, as the platform does for every number but \<open>NaN\<close> and every valid date)
  and for either value of the flag \<open>includeResult\<close>, the export succeeds, and importing
  the text gives no failure and, in the same order, the records with their names,
  their seven numbers and their dates as they were; the identifier is fresh, notes that
  were the empty string are absent, and the result is absent.
\<close>

theorem export_import_roundtrip:
  assumes "list_all (exportable env includeResult) items"
  shows "\<exists>csv. exportToCSV env items includeResult = Inr csv
     \<and> importFromCSV env csv =
         \<lparr>successful =
            map (\<lambda>(j, item). reimported env j item) (zip [1..<Suc (length items)] items),
          failed = []\<rparr>"
proof -
  define hdr where "hdr = headers @ (if includeResult then [''Result''] else [])"
  define rows where
    "rows = map (\<lambda>item. encodeRow (exportedCells env includeResult item)) items"
  define csv where "csv = join [lf] (encodeRow hdr # rows)"
  have ex: "\<And>item. item \<in> set items \<Longrightarrow> exportable env includeResult item"
    using assms by (simp add: list_all_iff)
  have e: "exportToCSV env items includeResult = Inr csv"
    using exportRows_exportable[OF assms]
    by (simp add: exportToCSV_def csv_def rows_def hdr_def comp_def)
  have cells_ne: "\<And>item. item \<in> set items \<Longrightarrow> exportedCells env includeResult item \<noteq> []"
  proof -
    fix item assume "item \<in> set items"
    then have "exportable env includeResult item" by (rule ex)
    then obtain t where "exportedCells env includeResult item =
      [name item, numToString (orbitalPeriod item), numToString (transitDepth item),
       numToString (transitDuration item), numToString (signalToNoiseRatio item),
       numToString (radius (stellarProperties item)),
       numToString (temperature (stellarProperties item)),
       numToString (magnitude (stellarProperties item)),
       isoString env t, orEmpty (notes' item)]
      @ (if includeResult then [orEmpty (result item)] else [])"
      by (rule exportable_cells)
    then show "exportedCells env includeResult item \<noteq> []" by simp
  qed
  have hne: "hdr \<noteq> []" by (simp add: hdr_def headers_def)
  have ends: "\<forall>l \<in> set (encodeRow hdr # rows). l \<noteq> [] \<and> hd l = dq \<and> last l = dq"
    using encodeRow_ends[OF hne] encodeRow_ends[OF cells_ne]
    by (auto simp: rows_def)
  have "lf \<notin> set (encodeRow hdr)"
    unfolding hdr_def by (rule lf_notin_encodeRow[OF headers_no_lf])
  then have nolf: "\<forall>l \<in> set (encodeRow hdr # rows). lf \<notin> set l"
    using lf_notin_encodeRow[OF exportable_no_lf[OF ex]]
    by (auto simp: rows_def)
  have c1: "csv \<noteq> []" and c2: "hd csv = dq"
    using ends by (simp_all add: csv_def join_not_Nil hd_join)
  have "last csv = last (last (encodeRow hdr # rows))"
    unfolding csv_def using ends by (intro last_join) auto
  moreover have "last (encodeRow hdr # rows) \<in> set (encodeRow hdr # rows)"
    by (rule last_in_set) simp
  ultimately have c3: "last csv = dq"
    using ends by metis
  have tr: "trim csv = csv"
    using c1 c2 c3 by (intro trim_unchanged) (simp_all add: isWhiteSpace_def)
  have "split_nl csv = encodeRow hdr # rows"
    unfolding csv_def using nolf by (intro split_nl_join) simp_all
  then have sp: "split_nl (trim csv) = encodeRow hdr # rows"
    by (simp only: tr)
  have len: "length (split_nl (trim csv)) = Suc (length items)"
    by (simp add: sp rows_def)
  have line: "\<And>j. 1 \<le> j \<Longrightarrow> j < Suc (length items) \<Longrightarrow>
      split_nl (trim csv) ! j = encodeRow (exportedCells env includeResult (items ! (j - 1)))
      \<and> items ! (j - 1) \<in> set items"
    by (auto simp: sp rows_def nth_Cons')
  have valid: "\<And>j. j \<in> set [1..<Suc (length items)] \<Longrightarrow> rowValid (split_nl (trim csv) ! j)"
  proof -
    fix j assume "j \<in> set [1..<Suc (length items)]"
    then have j: "1 \<le> j" "j < Suc (length items)" by (simp_all del: upt_Suc)
    show "rowValid (split_nl (trim csv) ! j)"
      using line[OF j] exportable_row[OF ex] by simp
  qed
  have f1: "filter (\<lambda>j. rowValid (split_nl (trim csv) ! j)) [1..<Suc (length items)]
      = [1..<Suc (length items)]"
    by (intro filter_True ballI valid)
  have f2: "filter (\<lambda>j. \<not> rowValid (split_nl (trim csv) ! j)) [1..<Suc (length items)] = []"
    using valid by (intro filter_False) blast
  have m1: "map (\<lambda>j. buildExoplanet env j (parseCSVLine (split_nl (trim csv) ! j)))
        [1..<Suc (length items)]
      = map (\<lambda>(j, item). buildExoplanet env j
               (parseCSVLine (encodeRow (exportedCells env includeResult item))))
          (zip [1..<Suc (length items)] items)"
    using map_index_zip[of "\<lambda>j l. buildExoplanet env j (parseCSVLine l)" "encodeRow hdr" rows]
    by (simp add: sp rows_def zip_map2 split_def del: upt_Suc)
  have m2: "map (\<lambda>(j, item). buildExoplanet env j
               (parseCSVLine (encodeRow (exportedCells env includeResult item))))
          (zip [1..<Suc (length items)] items)
      = map (\<lambda>(j, item). reimported env j item) (zip [1..<Suc (length items)] items)"
  proof (rule map_cong[OF refl])
    fix p assume "p \<in> set (zip [1..<Suc (length items)] items)"
    then have "snd p \<in> set items"
      by (metis prod.collapse set_zip_rightD)
    then show "(case p of (j, item) \<Rightarrow>
          buildExoplanet env j (parseCSVLine (encodeRow (exportedCells env includeResult item))))
        = (case p of (j, item) \<Rightarrow> reimported env j item)"
      using exportable_row[OF ex] by (cases p) simp
  qed
  have "importFromCSV env csv =
         \<lparr>successful =
            map (\<lambda>(j, item). reimported env j item) (zip [1..<Suc (length items)] items),
          failed = []\<rparr>"
    unfolding importFromCSV_char len f1 f2 m1 m2 by simp
  with e show ?thesis by blast
qed

text \<open>
  Two records, one with quotes and a comma in its name, come back in order with their
  dates; a record exported with its result comes back without it.
\<close>

theorem export_import_roundtrip_witness:
  "list_all (exportable samplePlatform False) [keplerQuoted, hd40307g]
   \<and> (\<exists>csv. exportToCSV samplePlatform [keplerQuoted, hd40307g] False = Inr csv
        \<and> importFromCSV samplePlatform csv =
            \<lparr>successful = [keplerQuoted\<lparr>id' := ''uuid-1''\<rparr>, hd40307g\<lparr>id' := ''uuid-2''\<rparr>],
             failed = []\<rparr>)
   \<and> list_all (exportable samplePlatform True) [hd40307g\<lparr>result := Some ''candidate''\<rparr>]
   \<and> (\<exists>csv. exportToCSV samplePlatform [hd40307g\<lparr>result := Some ''candidate''\<rparr>] True = Inr csv
        \<and> importFromCSV samplePlatform csv =
            \<lparr>successful = [hd40307g\<lparr>id' := ''uuid-1''\<rparr>], failed = []\<rparr>)"
proof -
  have a: "list_all (exportable samplePlatform False) [keplerQuoted, hd40307g]"
    by code_simp
  have b: "map (\<lambda>(j, item). reimported samplePlatform j item)
             (zip [1..<Suc (length [keplerQuoted, hd40307g])] [keplerQuoted, hd40307g])
           = [keplerQuoted\<lparr>id' := ''uuid-1''\<rparr>, hd40307g\<lparr>id' := ''uuid-2''\<rparr>]"
    by code_simp
  have c: "list_all (exportable samplePlatform True) [hd40307g\<lparr>result := Some ''candidate''\<rparr>]"
    by code_simp
  have d: "map (\<lambda>(j, item). reimported samplePlatform j item)
             (zip [1..<Suc (length [hd40307g\<lparr>result := Some ''candidate''\<rparr>])]
                [hd40307g\<lparr>result := Some ''candidate''\<rparr>])
           = [hd40307g\<lparr>id' := ''uuid-1''\<rparr>]"
    by code_simp
  show ?thesis
    using a c export_import_roundtrip[OF a] export_import_roundtrip[OF c] unfolding b d
    by simp
qed

text \<open>
  C1 as stated does not hold. A valid record with a result loses it, whether the Result
  column is written or not; a valid record whose notes are the empty string comes back
  without notes; a valid record whose notes hold a line feed comes back with its notes
  cut at the line feed and with a failure for the rest of the line; a record whose date
  is invalid cannot be exported.
\<close>

theorem roundtrip_counterexample:
  "validObservation (keplerQuoted\<lparr>result := Some ''exo''\<rparr>)
   \<and> \<not> roundTripsExactly samplePlatform False [keplerQuoted\<lparr>result := Some ''exo''\<rparr>]
   \<and> (case exportToCSV samplePlatform [keplerQuoted\<lparr>result := Some ''exo''\<rparr>] False of
         Inl e \<Rightarrow> False
       | Inr csv \<Rightarrow>
           failed (importFromCSV samplePlatform csv) = []
           \<and> map result (successful (importFromCSV samplePlatform csv)) = [None])
   \<and> \<not> roundTripsExactly samplePlatform True [keplerQuoted\<lparr>result := Some ''exo''\<rparr>]
   \<and> (case exportToCSV samplePlatform [keplerQuoted\<lparr>result := Some ''exo''\<rparr>] True of
         Inl e \<Rightarrow> False
       | Inr csv \<Rightarrow>
           failed (importFromCSV samplePlatform csv) = []
           \<and> map result (successful (importFromCSV samplePlatform csv)) = [None])
   \<and> validObservation (keplerQuoted\<lparr>notes' := Some []\<rparr>)
   \<and> \<not> roundTripsExactly samplePlatform False [keplerQuoted\<lparr>notes' := Some []\<rparr>]
   \<and> (case exportToCSV samplePlatform [keplerQuoted\<lparr>notes' := Some []\<rparr>] False of
         Inl e \<Rightarrow> False
       | Inr csv \<Rightarrow>
           failed (importFromCSV samplePlatform csv) = []
           \<and> map notes' (successful (importFromCSV samplePlatform csv)) = [None])
   \<and> validObservation (keplerQuoted\<lparr>notes' := Some (''first line'' @ [lf] @ ''second line'')\<rparr>)
   \<and> \<not> roundTripsExactly samplePlatform False
         [keplerQuoted\<lparr>notes' := Some (''first line'' @ [lf] @ ''second line'')\<rparr>]
   \<and> (case exportToCSV samplePlatform
               [keplerQuoted\<lparr>notes' := Some (''first line'' @ [lf] @ ''second line'')\<rparr>] False of
         Inl e \<Rightarrow> False
       | Inr csv \<Rightarrow>
           map notes' (successful (importFromCSV samplePlatform csv)) = [Some ''first line'']
           \<and> map row (failed (importFromCSV samplePlatform csv)) = [3]
           \<and> map data (failed (importFromCSV samplePlatform csv)) = [[''second line'']])
   \<and> validObservation (keplerQuoted\<lparr>dateAdded := InvalidDate\<rparr>)
   \<and> \<not> roundTripsExactly samplePlatform False [keplerQuoted\<lparr>dateAdded := InvalidDate\<rparr>]
   \<and> exportToCSV samplePlatform [keplerQuoted\<lparr>dateAdded := InvalidDate\<rparr>] False
       = Inl RangeError"
  by code_simp

end
